theory Spec2Isabelle
  imports
    Main
    "HOL-Library.AList"
    "HOL-Library.Char_ord"
    "HOL-Library.List_Lexorder"
    "HOL-Library.Multiset"
begin

section \<open>Strings\<close>

text \<open>
  Python strings are modelled as \<open>string\<close> (lists of 8-bit characters, read as code points
  below 256). The helpers below are the string operations \<open>census/core.py\<close> uses.
\<close>

fun starts_with :: "'a list \<Rightarrow> 'a list \<Rightarrow> bool" where
  "starts_with [] s = True"
| "starts_with (p # ps) [] = False"
| "starts_with (p # ps) (x # xs) = (p = x \<and> starts_with ps xs)"

text \<open>\<open>str_contains sub s\<close> is Python's \<open>sub in s\<close> on strings.\<close>

fun str_contains :: "'a list \<Rightarrow> 'a list \<Rightarrow> bool" where
  "str_contains sub [] = (sub = [])"
| "str_contains sub (x # xs) = (starts_with sub (x # xs) \<or> str_contains sub xs)"

text \<open>\<open>join sep xs\<close> is \<open>sep.join(xs)\<close>.\<close>

fun join :: "string \<Rightarrow> string list \<Rightarrow> string" where
  "join sep [] = []"
| "join sep [x] = x"
| "join sep (x # y # ys) = x @ sep @ join sep (y # ys)"

text \<open>
  \<open>str.splitlines()\<close>: the line boundaries below 256 are LF, CR, CR LF, VT, FF, FS, GS, RS
  and NEL; a trailing boundary opens no further line.
\<close>

definition line_boundary :: "char \<Rightarrow> bool" where
  "line_boundary c = (c \<in> set [CHR 0x0A, CHR 0x0D, CHR 0x0B, CHR 0x0C,
                                   CHR 0x1C, CHR 0x1D, CHR 0x1E, CHR 0x85])"

fun splitlines_from :: "string \<Rightarrow> string \<Rightarrow> string list" where
  "splitlines_from cur [] = (if cur = [] then [] else [cur])"
| "splitlines_from cur [c] =
     (if line_boundary c then [cur] else [cur @ [c]])"
| "splitlines_from cur (c # d # s) =
     (if c = CHR 0x0D \<and> d = CHR 0x0A then cur # splitlines_from [] s
      else if line_boundary c then cur # splitlines_from [] (d # s)
      else splitlines_from (cur @ [c]) (d # s))"

definition splitlines :: "string \<Rightarrow> string list" where
  "splitlines s = splitlines_from [] s"

text \<open>\<open>str(n)\<close> for an integer, and \<open>repr\<close> of a tuple of integers.\<close>

function show_nat :: "nat \<Rightarrow> string" where
  "show_nat n =
     (if n < 10 then [''0123456789'' ! n]
      else show_nat (n div 10) @ [''0123456789'' ! (n mod 10)])"
  by pat_completeness auto
termination
  by (relation "measure id") auto

declare show_nat.simps [simp del]

definition show_int :: "int \<Rightarrow> string" where
  "show_int i = (if i < 0 then CHR ''-'' # show_nat (nat (- i)) else show_nat (nat i))"

fun repr_tuple :: "int list \<Rightarrow> string" where
  "repr_tuple [] = ''()''"
| "repr_tuple [y] = ''('' @ show_int y @ '',)''"
| "repr_tuple ys = ''('' @ join '', '' (map show_int ys) @ '')''"

text \<open>
  The \<open>%\<close> operator with \<open>%s\<close> directives only, as the URL templates use it: each
  \<open>%s\<close> takes the next argument.
\<close>

fun percent_format :: "string \<Rightarrow> string list \<Rightarrow> string" where
  "percent_format [] args = []"
| "percent_format [c] args = [c]"
| "percent_format (c # d # s) args =
     (if c = CHR ''%'' \<and> d = CHR ''s'' then
        (case args of [] \<Rightarrow> c # d # percent_format s []
         | a # as \<Rightarrow> a @ percent_format s as)
      else c # percent_format (d # s) args)"

section \<open>Errors, values and field types\<close>

text \<open>
  Every exception the modelled code can raise is a value. \<open>APIKeyError\<close> is not a
  \<open>CensusException\<close>; \<open>UnsupportedYearException\<close> is a subclass of it.
  \<open>JSONDecodeError\<close> is the \<open>ValueError\<close> that \<open>resp.json()\<close> raises, and
  \<open>ValueError v\<close> the one \<open>float(v)\<close> raises.
\<close>

datatype error =
    APIKeyError string
  | CensusException string
  | UnsupportedYearException string
  | JSONDecodeError
  | ValueError string
  | KeyError string
  | IndexError
  | TypeError
  | AttributeError

text \<open>
  A cell of a result row is \<open>None\<close>, a string or a float. Python's \<open>float\<close> is not
  modelled: the type \<open>'f\<close> stands for the floats and the parser \<open>float(v)\<close> is the
  parameter \<open>pf :: string \<Rightarrow> 'f option\<close>, with \<open>None\<close> for a \<open>ValueError\<close>.
\<close>

datatype 'f pyvalue = PyNone | PyStr string | PyFloat 'f

type_synonym 'f row = "(string \<times> 'f pyvalue) list"

text \<open>The three coercions \<open>_field_type\<close> can return: \<open>str\<close>, \<open>float\<close> and \<open>float_or_str\<close>.\<close>

datatype cast = Cast_str | Cast_float | Cast_float_or_str

definition float_or_str :: "(string \<Rightarrow> 'f option) \<Rightarrow> string \<Rightarrow> 'f pyvalue" where
  "float_or_str pf v = (case pf v of Some x \<Rightarrow> PyFloat x | None \<Rightarrow> PyStr v)"

fun apply_cast :: "(string \<Rightarrow> 'f option) \<Rightarrow> cast \<Rightarrow> string \<Rightarrow> error + 'f pyvalue" where
  "apply_cast pf Cast_str v = Inr (PyStr v)"
| "apply_cast pf Cast_float v =
     (case pf v of Some x \<Rightarrow> Inr (PyFloat x) | None \<Rightarrow> Inl (ValueError v))"
| "apply_cast pf Cast_float_or_str v = Inr (float_or_str pf v)"

text \<open>\<open>cast(item) if item is not None else None\<close>\<close>

definition cast_item ::
  "(string \<Rightarrow> 'f option) \<Rightarrow> cast \<Rightarrow> string option \<Rightarrow> error + 'f pyvalue" where
  "cast_item pf c item = (case item of None \<Rightarrow> Inr PyNone | Some v \<Rightarrow> apply_cast pf c v)"

text \<open>The \<open>types\<close> dictionary of \<open>_field_type\<close>.\<close>

definition types :: "(string \<times> cast) list" where
  "types = [(''fips-for'', Cast_str),
            (''fips-in'', Cast_str),
            (''int'', Cast_float_or_str),
            (''float'', Cast_float),
            (''string'', Cast_str)]"

section \<open>The session and the client\<close>

text \<open>
  A request is \<open>session.get(url, params=params)\<close>; the metadata lookup passes no
  parameters. A response has a status code, a text (\<open>resp_text\<close>) and a JSON reading of the text
  (\<open>None\<close> when \<open>resp.json()\<close> raises). The JSON bodies are those the API documents:
  an array whose first element is the header row and whose other elements are rows
  of strings and nulls, the empty array, and the object describing one variable, of
  which only the \<open>predicateType\<close> entry is read.
\<close>

datatype request = Get string "(string \<times> string) list option"

datatype payload =
    Table "string list" "string option list list"
  | EmptyArray
  | Variable "string option"

record response =
  status_code :: int
  resp_text :: string
  json :: "payload option"

text \<open>
  The server is any function from the requests seen so far and the current request
  to a response: a deterministic server with arbitrary internal state.
\<close>

type_synonym transport = "request list \<Rightarrow> request \<Rightarrow> response"

datatype fieldseq = FList "string list" | FTuple "string list" | FStr string

text \<open>
  The client object. \<open>session_log\<close> holds the requests sent so far, \<open>field_type_cache\<close>
  is the \<open>lru_cache\<close> of \<open>_field_type\<close> (most recently used first), and \<open>query_log\<close>
  records the arguments \<open>fields\<close> and \<open>sort_by_geoid\<close> of every call of \<open>query\<close>
  (an observation of the run, read by no operation).
\<close>

record client =
  key :: string
  retries :: int
  default_year :: int
  dataset :: string
  years :: "int list"
  endpoint_url :: string
  definitions_url :: string
  definition_url :: string
  groups_url :: string
  session_log :: "request list"
  field_type_cache :: "((string \<times> int) \<times> cast) list"
  query_log :: "(fieldseq \<times> bool) list"

definition session_get :: "transport \<Rightarrow> client \<Rightarrow> request \<Rightarrow> response \<times> client" where
  "session_get tr c req = (tr (session_log c) req, c\<lparr>session_log := session_log c @ [req]\<rparr>)"

section \<open>The field type resolver\<close>

text \<open>
  \<open>@lru_cache(maxsize=1024)\<close> on \<open>_field_type\<close>. A hit moves the entry to the front;
  a miss that returns stores the result, evicting the least recently used entry when
  the cache holds \<open>maxsize\<close> entries. A call that raises stores nothing. The cache of
  the source belongs to the function, keyed by \<open>(self, field, year)\<close>; the model
  follows one client.
\<close>

definition lru_maxsize :: nat where
  "lru_maxsize = 1024"

definition lru_get :: "'k \<Rightarrow> ('k \<times> 'v) list \<Rightarrow> ('v \<times> ('k \<times> 'v) list) option" where
  "lru_get k cache =
     (case map_of cache k of
        None \<Rightarrow> None
      | Some v \<Rightarrow> Some (v, (k, v) # AList.delete k cache))"

definition lru_put :: "'k \<Rightarrow> 'v \<Rightarrow> ('k \<times> 'v) list \<Rightarrow> ('k \<times> 'v) list" where
  "lru_put k v cache =
     (if lru_maxsize \<le> length cache then (k, v) # butlast cache else (k, v) # cache)"

definition field_url :: "client \<Rightarrow> string \<Rightarrow> int \<Rightarrow> string" where
  "field_url c field year =
     percent_format (definition_url c) [show_int year, dataset c, field]"

definition field_type :: "transport \<Rightarrow> client \<Rightarrow> string \<Rightarrow> int \<Rightarrow> (error + cast) \<times> client" where
  "field_type tr c field year =
     (case lru_get (field, year) (field_type_cache c) of
        Some (t, cache') \<Rightarrow> (Inr t, c\<lparr>field_type_cache := cache'\<rparr>)
      | None \<Rightarrow>
          (let (resp, c1) = session_get tr c (Get (field_url c field year) None)
           in if status_code resp = 200 then
                (case json resp of
                   None \<Rightarrow> (Inl JSONDecodeError, c1)
                 | Some (Variable pt) \<Rightarrow>
                     (let predicate_type = (case pt of None \<Rightarrow> ''string'' | Some p \<Rightarrow> p)
                      in case map_of types predicate_type of
                           None \<Rightarrow> (Inl (KeyError predicate_type), c1)
                         | Some t \<Rightarrow>
                             (Inr t, c1\<lparr>field_type_cache :=
                                         lru_put (field, year) t (field_type_cache c1)\<rparr>))
                 | Some other \<Rightarrow> (Inl AttributeError, c1))
              else (Inr Cast_str, c1\<lparr>field_type_cache :=
                                      lru_put (field, year) Cast_str (field_type_cache c1)\<rparr>)))"

text \<open>\<open>[self._field_type(header, year) for header in headers]\<close>\<close>

fun field_types ::
  "transport \<Rightarrow> client \<Rightarrow> string list \<Rightarrow> int \<Rightarrow> (error + cast list) \<times> client" where
  "field_types tr c [] year = (Inr [], c)"
| "field_types tr c (h # hs) year =
     (case field_type tr c h year of
        (Inl e, c1) \<Rightarrow> (Inl e, c1)
      | (Inr t, c1) \<Rightarrow>
          (case field_types tr c1 hs year of
             (Inl e, c2) \<Rightarrow> (Inl e, c2)
           | (Inr ts, c2) \<Rightarrow> (Inr (t # ts), c2)))"

section \<open>The query executor\<close>

text \<open>
  The dict comprehension that builds one row: the cells are cast left to right, the
  first failing cast raises, and a repeated header overwrites the value in place.
\<close>

fun build_row ::
  "(string \<Rightarrow> 'f option) \<Rightarrow> (string \<times> cast \<times> string option) list \<Rightarrow> 'f row \<Rightarrow> error + 'f row" where
  "build_row pf [] acc = Inr acc"
| "build_row pf ((header, c, item) # rest) acc =
     (case cast_item pf c item of
        Inl e \<Rightarrow> Inl e
      | Inr v \<Rightarrow> build_row pf rest (AList.update header v acc))"

fun build_rows ::
  "(string \<Rightarrow> 'f option) \<Rightarrow> string list \<Rightarrow> cast list \<Rightarrow> string option list list
     \<Rightarrow> error + 'f row list" where
  "build_rows pf headers ts [] = Inr []"
| "build_rows pf headers ts (d # ds) =
     (case build_row pf (zip headers (zip ts d)) [] of
        Inl e \<Rightarrow> Inl e
      | Inr r \<Rightarrow>
          (case build_rows pf headers ts ds of
             Inl e \<Rightarrow> Inl e
           | Inr rs \<Rightarrow> Inr (r # rs)))"

text \<open>\<open>headers = data.pop(0)\<close>\<close>

fun pop_headers :: "payload \<Rightarrow> error + (string list \<times> string option list list)" where
  "pop_headers (Table headers rows) = Inr (headers, rows)"
| "pop_headers EmptyArray = Inl IndexError"
| "pop_headers (Variable pt) = Inl (KeyError ''0'')"

text \<open>
  \<open>sorted(results, key=...)\<close>. The keys are computed first, row by row; a row without
  \<open>GEO_ID\<close> raises \<open>KeyError\<close>, and with \<open>pop\<close> the key is removed from the row. The
  sort is stable. Fewer than two rows are never compared. Strings compare by code
  point, floats by the order of \<open>'f\<close> (taken linear: no NaN), and any other pair of
  keys raises \<open>TypeError\<close>.
\<close>

fun geoid_keys :: "bool \<Rightarrow> 'f row list \<Rightarrow> error + ('f pyvalue \<times> 'f row) list" where
  "geoid_keys pop [] = Inr []"
| "geoid_keys pop (x # xs) =
     (case map_of x ''GEO_ID'' of
        None \<Rightarrow> Inl (KeyError ''GEO_ID'')
      | Some k \<Rightarrow>
          (case geoid_keys pop xs of
             Inl e \<Rightarrow> Inl e
           | Inr ks \<Rightarrow> Inr ((k, if pop then AList.delete ''GEO_ID'' x else x) # ks)))"

fun str_key :: "'f pyvalue \<times> 'a \<Rightarrow> (string \<times> 'a) option" where
  "str_key (PyStr s, x) = Some (s, x)"
| "str_key (k, x) = None"

fun float_key :: "'f pyvalue \<times> 'a \<Rightarrow> ('f \<times> 'a) option" where
  "float_key (PyFloat f, x) = Some (f, x)"
| "float_key (k, x) = None"

definition py_sorted :: "('f::linorder pyvalue \<times> 'a) list \<Rightarrow> error + 'a list" where
  "py_sorted kvs =
     (if length kvs < 2 then Inr (map snd kvs)
      else case those (map str_key kvs) of
             Some ss \<Rightarrow> Inr (map snd (sort_key fst ss))
           | None \<Rightarrow>
               (case those (map float_key kvs) of
                  Some fs \<Rightarrow> Inr (map snd (sort_key fst fs))
                | None \<Rightarrow> Inl TypeError))"

definition sorted_by_geoid :: "bool \<Rightarrow> ('f::linorder) row list \<Rightarrow> error + 'f row list" where
  "sorted_by_geoid pop results =
     (case geoid_keys pop results of Inl e \<Rightarrow> Inl e | Inr kvs \<Rightarrow> py_sorted kvs)"

text \<open>\<open>list_or_str\<close>, and the field list of the request after \<open>fields += ['GEO_ID']\<close>.\<close>

fun list_or_str :: "fieldseq \<Rightarrow> string list" where
  "list_or_str (FList xs) = xs"
| "list_or_str (FTuple xs) = xs"
| "list_or_str (FStr s) = [s]"

definition request_fields :: "fieldseq \<Rightarrow> bool \<Rightarrow> string list" where
  "request_fields flds sbg =
     (if sbg then list_or_str flds @ [''GEO_ID''] else list_or_str flds)"

text \<open>
  On a list, \<open>+=\<close> extends the caller's object in place, so the argument of the next
  attempt of a retried call already ends with \<open>GEO_ID\<close>; on a tuple it rebinds the
  local name, and a single string was wrapped in a fresh list.
\<close>

fun argument_after :: "fieldseq \<Rightarrow> bool \<Rightarrow> fieldseq" where
  "argument_after (FList xs) sbg = (if sbg then FList (xs @ [''GEO_ID'']) else FList xs)"
| "argument_after (FTuple xs) sbg = FTuple xs"
| "argument_after (FStr s) sbg = FStr s"

definition build_params ::
  "client \<Rightarrow> string list \<Rightarrow> (string \<times> string) list \<Rightarrow> error + (string \<times> string) list" where
  "build_params c fs geo =
     (case map_of geo ''for'' of
        None \<Rightarrow> Inl (KeyError ''for'')
      | Some f \<Rightarrow>
          Inr ([(''get'', join '','' fs), (''for'', f), (''key'', key c)] @
               (case map_of geo ''in'' of None \<Rightarrow> [] | Some i \<Rightarrow> [(''in'', i)])))"

definition invalid_key_marker :: string where
  "invalid_key_marker = ''<title>Invalid Key</title>''"

text \<open>
  The body of \<open>Client.query\<close>, without its decorator, in two parts: the status
  dispatch on the response (from \<open>if resp.status_code == 200\<close> on), and before it the
  construction and sending of the request.
\<close>

definition handle_response ::
  "(string \<Rightarrow> 'f option) \<Rightarrow> transport \<Rightarrow> client \<Rightarrow> response \<Rightarrow> int \<Rightarrow> string list \<Rightarrow> bool
     \<Rightarrow> (error + ('f::linorder) row list) \<times> client" where
  "handle_response pf tr c1 resp year' fs sbg =
     (if status_code resp = 200 then
        (case json resp of
           None \<Rightarrow>
             (if str_contains invalid_key_marker (resp_text resp)
              then (Inl (APIKeyError (join '' '' (splitlines (resp_text resp)))), c1)
              else (Inl JSONDecodeError, c1))
         | Some data \<Rightarrow>
             (case pop_headers data of
                Inl e \<Rightarrow> (Inl e, c1)
              | Inr (headers, rows) \<Rightarrow>
                  (case field_types tr c1 headers year' of
                     (Inl e, c2) \<Rightarrow> (Inl e, c2)
                   | (Inr ts, c2) \<Rightarrow>
                       (case build_rows pf headers ts rows of
                          Inl e \<Rightarrow> (Inl e, c2)
                        | Inr results \<Rightarrow>
                            (if sbg then
                               (if ''GEO_ID'' \<in> set fs
                                then (sorted_by_geoid False results, c2)
                                else (sorted_by_geoid True results, c2))
                             else (Inr results, c2))))))
      else if status_code resp = 204 then (Inr [], c1)
      else (Inl (CensusException (resp_text resp)), c1))"

definition query_url :: "client \<Rightarrow> int option \<Rightarrow> string" where
  "query_url c year =
     percent_format (endpoint_url c)
       [show_int (case year of None \<Rightarrow> default_year c | Some y \<Rightarrow> y), dataset c]"

definition query_body ::
  "(string \<Rightarrow> 'f option) \<Rightarrow> transport \<Rightarrow> client \<Rightarrow> fieldseq \<Rightarrow> (string \<times> string) list
     \<Rightarrow> int option \<Rightarrow> bool \<Rightarrow> (error + ('f::linorder) row list) \<times> client" where
  "query_body pf tr c flds geo year sbg =
     (let year' = (case year of None \<Rightarrow> default_year c | Some y \<Rightarrow> y);
          fs = request_fields flds sbg
      in case build_params c fs geo of
           Inl e \<Rightarrow> (Inl e, c)
         | Inr params \<Rightarrow>
             (let (resp, c1) = session_get tr c (Get (query_url c year) (Some params))
              in handle_response pf tr c1 resp year' fs sbg))"

section \<open>Retrying\<close>

definition transient_error_message :: string where
  "transient_error_message =
     ''There was an error while running your query.  We've logged the error and we'll correct it ASAP.  Sorry for the inconvenience.''"

text \<open>
  \<open>except CensusException as e\<close> catches \<open>CensusException\<close> and its subclass;
  \<open>str(e)\<close> is the message.
\<close>

fun census_exception_str :: "error \<Rightarrow> string option" where
  "census_exception_str (CensusException m) = Some m"
| "census_exception_str (UnsupportedYearException m) = Some m"
| "census_exception_str e = None"

definition is_transient :: "error \<Rightarrow> bool" where
  "is_transient e =
     (case census_exception_str e of
        None \<Rightarrow> False
      | Some m \<Rightarrow> str_contains transient_error_message m)"

text \<open>
  \<open>retry_on_transient_error\<close>: the \<open>for\<close> loop runs \<open>max(retries - 1, 0)\<close> times and its
  \<open>else\<close> clause makes the last call. The state \<open>'s\<close> is everything the calls share:
  the client and the argument objects.
\<close>

fun retry_loop :: "nat \<Rightarrow> ('s \<Rightarrow> (error + 'a) \<times> 's) \<Rightarrow> 's \<Rightarrow> (error + 'a) \<times> 's" where
  "retry_loop 0 func s = func s"
| "retry_loop (Suc n) func s =
     (case func s of
        (Inr result, s') \<Rightarrow> (Inr result, s')
      | (Inl e, s') \<Rightarrow> (if is_transient e then retry_loop n func s' else (Inl e, s')))"

definition retry_on_transient_error ::
  "('s \<Rightarrow> int) \<Rightarrow> ('s \<Rightarrow> (error + 'a) \<times> 's) \<Rightarrow> 's \<Rightarrow> (error + 'a) \<times> 's" where
  "retry_on_transient_error retries_of func s =
     retry_loop (nat (max (retries_of s - 1) 0)) func s"

text \<open>One attempt of \<open>query\<close> on the shared state: the client and the argument \<open>fields\<close>.\<close>

definition query_attempt ::
  "(string \<Rightarrow> 'f option) \<Rightarrow> transport \<Rightarrow> (string \<times> string) list \<Rightarrow> int option \<Rightarrow> bool
     \<Rightarrow> client \<times> fieldseq \<Rightarrow> (error + ('f::linorder) row list) \<times> (client \<times> fieldseq)" where
  "query_attempt pf tr geo year sbg s =
     (case query_body pf tr (fst s) (snd s) geo year sbg of
        (r, c') \<Rightarrow> (r, (c', argument_after (snd s) sbg)))"

text \<open>\<open>Client.query\<close> as its callers see it: decorated, and entered in \<open>query_log\<close>.\<close>

definition query ::
  "(string \<Rightarrow> 'f option) \<Rightarrow> transport \<Rightarrow> client \<Rightarrow> fieldseq \<Rightarrow> (string \<times> string) list
     \<Rightarrow> int option \<Rightarrow> bool \<Rightarrow> (error + ('f::linorder) row list) \<times> client" where
  "query pf tr c flds geo year sbg =
     (case retry_on_transient_error (\<lambda>s. retries (fst s)) (query_attempt pf tr geo year sbg)
             (c\<lparr>query_log := query_log c @ [(flds, sbg)]\<rparr>, flds) of
        (r, s') \<Rightarrow> (r, fst s'))"

section \<open>Chunking and merging\<close>

text \<open>\<open>len(l)\<close> and the slice \<open>l[i:i + n]\<close> on a list, a tuple or a string.\<close>

fun py_len :: "fieldseq \<Rightarrow> nat" where
  "py_len (FList xs) = length xs"
| "py_len (FTuple xs) = length xs"
| "py_len (FStr s) = length s"

fun py_slice :: "fieldseq \<Rightarrow> nat \<Rightarrow> nat \<Rightarrow> fieldseq" where
  "py_slice (FList xs) i n = FList (take n (drop i xs))"
| "py_slice (FTuple xs) i n = FTuple (take n (drop i xs))"
| "py_slice (FStr s) i n = FStr (take n (drop i s))"

text \<open>\<open>range(i, stop, step)\<close> for a positive step (the source passes 49).\<close>

function py_range :: "nat \<Rightarrow> nat \<Rightarrow> nat \<Rightarrow> nat list" where
  "py_range i stop step =
     (if i < stop \<and> 0 < step then i # py_range (i + step) stop step else [])"
  by pat_completeness auto
termination
  by (relation "measure (\<lambda>(i, stop, step). stop - i)") auto

declare py_range.simps [simp del]

definition chunks :: "fieldseq \<Rightarrow> nat \<Rightarrow> fieldseq list" where
  "chunks l n = map (\<lambda>i. py_slice l i n) (py_range 0 (py_len l) n)"

text \<open>\<open>merge\<close>: the items of the dictionaries in order, a later value replacing an earlier one.\<close>

definition merge :: "('k \<times> 'v) list list \<Rightarrow> ('k \<times> 'v) list" where
  "merge dicts = fold (\<lambda>item acc. AList.update (fst item) (snd item) acc) (concat dicts) []"

text \<open>\<open>zip(*all_results)\<close>: the tuples of corresponding elements, as many as the shortest has.\<close>

fun zip_star :: "'a list list \<Rightarrow> 'a list list" where
  "zip_star [] = []"
| "zip_star [r] = map (\<lambda>x. [x]) r"
| "zip_star (r # r' # rs) = map (\<lambda>p. fst p # snd p) (zip r (zip_star (r' # rs)))"

text \<open>The condition computed by \<open>get\<close>: \<open>len(fields) > 49 and (not year or year > 2009)\<close>.\<close>

definition sort_by_geoid :: "fieldseq \<Rightarrow> int option \<Rightarrow> bool" where
  "sort_by_geoid flds year =
     (49 < py_len flds \<and> (case year of None \<Rightarrow> True | Some y \<Rightarrow> y = 0 \<or> 2009 < y))"

text \<open>
  The generator of the per-chunk queries, consumed by the star of \<open>zip\<close>: the queries
  run one after the other, and the first that raises ends the call.
\<close>

fun query_all ::
  "(string \<Rightarrow> 'f option) \<Rightarrow> transport \<Rightarrow> client \<Rightarrow> fieldseq list \<Rightarrow> (string \<times> string) list
     \<Rightarrow> int option \<Rightarrow> bool \<Rightarrow> (error + ('f::linorder) row list list) \<times> client" where
  "query_all pf tr c [] geo year sbg = (Inr [], c)"
| "query_all pf tr c (ch # chs) geo year sbg =
     (case query pf tr c ch geo year sbg of
        (Inl e, c1) \<Rightarrow> (Inl e, c1)
      | (Inr r, c1) \<Rightarrow>
          (case query_all pf tr c1 chs geo year sbg of
             (Inl e, c2) \<Rightarrow> (Inl e, c2)
           | (Inr rs, c2) \<Rightarrow> (Inr (r # rs), c2)))"

definition get ::
  "(string \<Rightarrow> 'f option) \<Rightarrow> transport \<Rightarrow> client \<Rightarrow> fieldseq \<Rightarrow> (string \<times> string) list
     \<Rightarrow> int option \<Rightarrow> (error + ('f::linorder) row list) \<times> client" where
  "get pf tr c flds geo year =
     (case query_all pf tr c (chunks flds 49) geo year (sort_by_geoid flds year) of
        (Inl e, c') \<Rightarrow> (Inl e, c')
      | (Inr all_results, c') \<Rightarrow> (Inr (map merge (zip_star all_results)), c'))"

section \<open>Year gating and the geography methods\<close>

text \<open>
  \<open>supported_years(*years)\<close>. The year is the keyword argument \<open>year\<close> (\<open>kw_year\<close>,
  \<open>None\<close> when the caller passes none) or the client's default; the set is the
  decorator's, or the client's \<open>years\<close> when the decorator names none.
\<close>

definition unsupported_year_message :: "int \<Rightarrow> int list \<Rightarrow> string" where
  "unsupported_year_message year ys =
     ''Geography is not available in '' @ show_int year @
     ''. Available years include '' @ repr_tuple ys"

definition supported_years ::
  "int list \<Rightarrow> int option \<Rightarrow> (client \<Rightarrow> (error + 'a) \<times> client) \<Rightarrow> client
     \<Rightarrow> (error + 'a) \<times> client" where
  "supported_years ys kw_year func c =
     (let year = (case kw_year of None \<Rightarrow> default_year c | Some y \<Rightarrow> y);
          ys' = (if ys \<noteq> [] then ys else years c)
      in if year \<notin> set ys'
         then (Inl (UnsupportedYearException (unsupported_year_message year ys')), c)
         else func c)"

text \<open>\<open>ACSClient._switch_endpoints\<close> and \<open>ACSClient.get\<close>.\<close>

definition switch_endpoints :: "client \<Rightarrow> int \<Rightarrow> client" where
  "switch_endpoints c year =
     (if 2009 < year then
        c\<lparr>endpoint_url := ''https://api.census.gov/data/%s/acs/%s'',
          definitions_url := ''https://api.census.gov/data/%s/acs/%s/variables.json'',
          definition_url := ''https://api.census.gov/data/%s/acs/%s/variables/%s.json'',
          groups_url := ''https://api.census.gov/data/%s/acs/%s/groups.json''\<rparr>
      else
        c\<lparr>endpoint_url := ''https://api.census.gov/data/%s/%s'',
          definitions_url := ''https://api.census.gov/data/%s/%s/variables.json'',
          definition_url := ''https://api.census.gov/data/%s/%s/variables/%s.json'',
          groups_url := ''https://api.census.gov/data/%s/%s/groups.json''\<rparr>)"

definition acs_get ::
  "(string \<Rightarrow> 'f option) \<Rightarrow> transport \<Rightarrow> client \<Rightarrow> fieldseq \<Rightarrow> (string \<times> string) list
     \<Rightarrow> int option \<Rightarrow> (error + ('f::linorder) row list) \<times> client" where
  "acs_get pf tr c flds geo kw_year =
     get pf tr
       (switch_endpoints c (case kw_year of None \<Rightarrow> default_year c | Some y \<Rightarrow> y))
       flds geo kw_year"

text \<open>\<open>ACS5Client\<close>: the class attributes, and \<open>Client.__init__\<close> with a fresh session.\<close>

definition acs5_client :: "string \<Rightarrow> int option \<Rightarrow> int \<Rightarrow> client" where
  "acs5_client k year r =
     \<lparr>key = k, retries = r,
      default_year = (case year of None \<Rightarrow> 2023 | Some y \<Rightarrow> if y = 0 then 2023 else y),
      dataset = ''acs5'',
      years = [2023, 2022, 2021, 2020, 2019, 2018, 2017, 2016, 2015, 2014, 2013, 2012, 2011,
               2010, 2009],
      endpoint_url = ''https://api.census.gov/data/%s/%s'',
      definitions_url = ''https://api.census.gov/data/%s/%s/variables.json'',
      definition_url = ''https://api.census.gov/data/%s/%s/variables/%s.json'',
      groups_url = ''https://api.census.gov/data/%s/%s/groups.json'',
      session_log = [], field_type_cache = [], query_log = []\<rparr>"

text \<open>The geography selector that \<open>ACS5Client.state_zipcode\<close> builds.\<close>

definition state_zipcode_geo :: "int \<Rightarrow> string \<Rightarrow> string \<Rightarrow> (string \<times> string) list" where
  "state_zipcode_geo year state_fips zcta =
     (let geo = [(''for'', ''zip code tabulation area:'' @ zcta)]
      in if 2022 \<le> year then geo
         else if year < 2020 then AList.update ''in'' (''state:'' @ state_fips) geo
         else AList.update ''regionin'' (''state:'' @ state_fips) geo)"

definition state_zipcode_years :: "int list" where
  "state_zipcode_years =
     [2023, 2022, 2021, 2020, 2019, 2018, 2017, 2016, 2015, 2014, 2013, 2012, 2011]"

definition state_zipcode ::
  "(string \<Rightarrow> 'f option) \<Rightarrow> transport \<Rightarrow> client \<Rightarrow> fieldseq \<Rightarrow> string \<Rightarrow> string
     \<Rightarrow> int option \<Rightarrow> (error + ('f::linorder) row list) \<times> client" where
  "state_zipcode pf tr c flds state_fips zcta kw_year =
     supported_years state_zipcode_years kw_year
       (\<lambda>c'. acs_get pf tr c' flds
                (state_zipcode_geo (case kw_year of None \<Rightarrow> default_year c' | Some y \<Rightarrow> y)
                   state_fips zcta)
                kw_year)
       c"

text \<open>\<open>Client.state\<close>, gated by the client's own years.\<close>

definition state ::
  "(string \<Rightarrow> 'f option) \<Rightarrow> transport \<Rightarrow> client \<Rightarrow> fieldseq \<Rightarrow> string
     \<Rightarrow> int option \<Rightarrow> (error + ('f::linorder) row list) \<times> client" where
  "state pf tr c flds state_fips kw_year =
     supported_years [] kw_year
       (\<lambda>c'. acs_get pf tr c' flds [(''for'', ''state:'' @ state_fips)] kw_year)
       c"

section \<open>Example inputs\<close>

text \<open>
  A float parser for the examples: a non-empty string of decimal digits is read as the
  whole number it writes, as \<open>float\<close> reads it; every other string is rejected here.
\<close>

fun parse_digits :: "nat \<Rightarrow> string \<Rightarrow> nat option" where
  "parse_digits acc [] = Some acc"
| "parse_digits acc (c # cs) =
     (if c \<in> set ''0123456789''
      then parse_digits (10 * acc + (of_char c - 48)) cs
      else None)"

definition example_float :: "string \<Rightarrow> int option" where
  "example_float s = (if s = [] then None else map_option int (parse_digits 0 s))"

text \<open>Field names \<open>B01001_1E\<close>, \<open>B01001_2E\<close>, ...\<close>

definition example_fields :: "nat \<Rightarrow> string list" where
  "example_fields n = map (\<lambda>i. ''B01001_'' @ show_nat i @ ''E'') [1..<Suc n]"

fun split_on :: "char \<Rightarrow> string \<Rightarrow> string \<Rightarrow> string list" where
  "split_on sep cur [] = [cur]"
| "split_on sep cur (x # xs) =
     (if x = sep then cur # split_on sep [] xs else split_on sep (cur @ [x]) xs)"

text \<open>
  A server for the examples. A data request is answered with status 200 and a table
  whose header is the requested fields followed by the geography column \<open>state\<close>, with
  one row for Illinois and one for California, in this order. A metadata request is
  answered with status 404.
\<close>

definition example_cell :: "string \<Rightarrow> string \<Rightarrow> string option" where
  "example_cell st h =
     (if h = ''GEO_ID'' then Some (''0400000US'' @ st)
      else if h = ''state'' then Some st
      else Some (h @ ''@'' @ st))"

definition echo_server :: transport where
  "echo_server h req =
     (case req of
        Get url None \<Rightarrow> \<lparr>status_code = 404, resp_text = ''error: unknown variable'', json = None\<rparr>
      | Get url (Some ps) \<Rightarrow>
          (case map_of ps ''get'' of
             None \<Rightarrow> \<lparr>status_code = 400, resp_text = ''error: missing get'', json = None\<rparr>
           | Some g \<Rightarrow>
               (let hs = split_on CHR '','' [] g @ [''state'']
                in \<lparr>status_code = 200, resp_text = [],
                    json = Some (Table hs [map (example_cell ''17'') hs,
                                           map (example_cell ''06'') hs])\<rparr>)))"

text \<open>A server that answers every request with the given response.\<close>

definition constant_server :: "response \<Rightarrow> transport" where
  "constant_server resp h req = resp"

text \<open>A server that answers every request with the transient error.\<close>

definition transient_page :: string where
  "transient_page = ''error: '' @ transient_error_message"

definition failing_server :: transport where
  "failing_server =
     constant_server \<lparr>status_code = 500, resp_text = transient_page, json = None\<rparr>"

text \<open>More responses: no content, the invalid-key page, and two errors.\<close>

definition no_content :: response where
  "no_content = \<lparr>status_code = 204, resp_text = [], json = None\<rparr>"

definition invalid_key_page :: response where
  "invalid_key_page =
     \<lparr>status_code = 200,
      resp_text = ''<html><head><title>Invalid Key</title></head>\<newline><body>A valid key must be included.</body></html>'',
      json = None\<rparr>"

definition not_found :: response where
  "not_found = \<lparr>status_code = 404, resp_text = ''error: unknown variable'', json = None\<rparr>"

definition unknown_variable :: response where
  "unknown_variable =
     \<lparr>status_code = 400, resp_text = ''error: unknown variable NAMEX'', json = None\<rparr>"



text \<open>
  A server that answers the data requests of a run from a script, the first with the
  first response and so on (and with no content once the script is used up), and every
  metadata request with 404.
\<close>

definition scripted_server :: "response list \<Rightarrow> transport" where
  "scripted_server script h req =
     (case req of
        Get url None \<Rightarrow> not_found
      | Get url (Some ps) \<Rightarrow>
          (if length (filter (\<lambda>r. case r of Get u p \<Rightarrow> p \<noteq> None) h) < length script
           then script ! length (filter (\<lambda>r. case r of Get u p \<Rightarrow> p \<noteq> None) h)
           else no_content))"

text \<open>
  A server that answers the first data request with the transient error, the second
  with an error about an unknown variable, and every later one with no content.
\<close>

definition transient_then_unknown :: transport where
  "transient_then_unknown =
     scripted_server
       [\<lparr>status_code = 500, resp_text = transient_page, json = None\<rparr>, unknown_variable]"

text \<open>
  Two tables with the rows of Illinois and California in different orders, and one
  with the row of California only.
\<close>

definition first_table :: response where
  "first_table =
     \<lparr>status_code = 200, resp_text = [],
      json = Some (Table [''B01001_1E'', ''GEO_ID'', ''state'']
                     [[Some ''100'', Some ''0400000US17'', Some ''17''],
                      [Some ''200'', Some ''0400000US06'', Some ''06'']])\<rparr>"

definition second_table :: response where
  "second_table =
     \<lparr>status_code = 200, resp_text = [],
      json = Some (Table [''B01001_50E'', ''GEO_ID'', ''state'']
                     [[Some ''7'', Some ''0400000US06'', Some ''06''],
                      [Some ''9'', Some ''0400000US17'', Some ''17'']])\<rparr>"

definition short_table :: response where
  "short_table =
     \<lparr>status_code = 200, resp_text = [],
      json = Some (Table [''B01001_50E'', ''GEO_ID'', ''state'']
                     [[Some ''7'', Some ''0400000US06'', Some ''06'']])\<rparr>"

section \<open>Observations of a run\<close>

text \<open>
  The data requests in a session log are those sent with parameters; each attempt of
  \<open>query\<close> that reaches the session sends exactly one.
\<close>

definition is_data_request :: "request \<Rightarrow> bool" where
  "is_data_request r = (case r of Get url ps \<Rightarrow> ps \<noteq> None)"

definition data_requests :: "request list \<Rightarrow> nat" where
  "data_requests rs = length (filter is_data_request rs)"

text \<open>
  The attempts of one decorated call. Attempt \<open>i\<close> (counted from 0) is the call of the
  function on the state that the attempts before it have left; an attempt is a
  transient failure when it raises an error that the decorator retries.
\<close>

definition state_before_attempt ::
  "nat \<Rightarrow> ('s \<Rightarrow> (error + 'a) \<times> 's) \<Rightarrow> 's \<Rightarrow> 's" where
  "state_before_attempt i func s = ((\<lambda>s. snd (func s)) ^^ i) s"

definition transient_failure :: "(error + 'a) \<Rightarrow> bool" where
  "transient_failure r = (case r of Inl e \<Rightarrow> is_transient e | Inr x \<Rightarrow> False)"



text \<open>
  Rows in ascending order of their \<open>GEO_ID\<close> values, as Python compares them: two
  strings, or two floats.
\<close>

fun value_le :: "('f::linorder) pyvalue \<Rightarrow> 'f pyvalue \<Rightarrow> bool" where
  "value_le (PyStr a) (PyStr b) = (a \<le> b)"
| "value_le (PyFloat a) (PyFloat b) = (a \<le> b)"
| "value_le x y = False"

definition geoid_le :: "('f::linorder) row \<Rightarrow> 'f row \<Rightarrow> bool" where
  "geoid_le r r' =
     (case map_of r ''GEO_ID'' of
        None \<Rightarrow> False
      | Some x \<Rightarrow> (case map_of r' ''GEO_ID'' of None \<Rightarrow> False | Some y \<Rightarrow> value_le x y))"

definition geoid_sorted :: "('f::linorder) row list \<Rightarrow> bool" where
  "geoid_sorted rows = sorted_wrt geoid_le rows"

text \<open>
  The condition for sorting as the specification words it: chunking was triggered, the
  identity field is not already explicitly requested, and the year argument is
  unspecified or greater than 2009.
\<close>

definition specified_sort_condition :: "fieldseq \<Rightarrow> int option \<Rightarrow> bool" where
  "specified_sort_condition flds year =
     (49 < py_len flds \<and> ''GEO_ID'' \<notin> set (list_or_str flds) \<and>
      (case year of None \<Rightarrow> True | Some y \<Rightarrow> 2009 < y))"

section \<open>Basic facts about the helpers\<close>

lemma starts_with_iff: "starts_with p s \<longleftrightarrow> (\<exists>t. s = p @ t)"
  by (induction p s rule: starts_with.induct) auto

lemma str_contains_append: "str_contains sub (a @ sub @ b)"
proof (induction a)
  case Nil
  have "starts_with sub (sub @ b)" by (simp add: starts_with_iff)
  then show ?case by (cases "sub @ b") auto
next
  case (Cons x a)
  then show ?case by simp
qed

lemma str_contains_iff: "str_contains sub s \<longleftrightarrow> (\<exists>a b. s = a @ sub @ b)"
proof
  assume "str_contains sub s"
  then show "\<exists>a b. s = a @ sub @ b"
  proof (induction s)
    case Nil
    then show ?case by simp
  next
    case (Cons x xs)
    then consider "starts_with sub (x # xs)" | "str_contains sub xs" by auto
    then show ?case
    proof cases
      case 1
      then obtain t where "x # xs = [] @ sub @ t" by (auto simp: starts_with_iff)
      then show ?thesis by blast
    next
      case 2
      then obtain a b where "xs = a @ sub @ b" using Cons.IH by auto
      then have "x # xs = (x # a) @ sub @ b" by simp
      then show ?thesis by blast
    qed
  qed
next
  assume "\<exists>a b. s = a @ sub @ b"
  then show "str_contains sub s" by (auto simp: str_contains_append)
qed

section \<open>Year gating\<close>

lemma message_2010:
  "unsupported_year_message 2010 state_zipcode_years =
     ''Geography is not available in 2010. Available years include (2023, 2022, 2021, 2020, 2019, 2018, 2017, 2016, 2015, 2014, 2013, 2012, 2011)''"
  by (simp add: unsupported_year_message_def state_zipcode_years_def show_int_def show_nat.simps)

text \<open>
  Claim C7. With \<open>year\<close> the keyword argument (or the client's default) and \<open>ys'\<close> the
  decorator's years (or the client's, when the decorator names none): when the year is
  not among them, a gated method returns \<open>UnsupportedYearException\<close> whatever the
  decorated function is, the client is unchanged (no request was sent, nothing was
  cached or logged), and the message contains the year and the tuple of supported
  years; when the year is among them, the call is the decorated function's call.
\<close>

theorem supported_years_guard:
  "(year = (case kw_year of None \<Rightarrow> default_year c | Some y \<Rightarrow> y) \<and>
    ys' = (if ys \<noteq> [] then ys else years c)) \<longrightarrow>
   (year \<notin> set ys' \<longrightarrow>
      supported_years ys kw_year func c =
        (Inl (UnsupportedYearException
               (''Geography is not available in '' @ show_int year @
                ''. Available years include '' @ repr_tuple ys')), c) \<and>
      str_contains (show_int year) (unsupported_year_message year ys') \<and>
      str_contains (repr_tuple ys') (unsupported_year_message year ys')) \<and>
   (year \<in> set ys' \<longrightarrow> supported_years ys kw_year func c = func c)"
proof -
  have a: "str_contains (show_int y) (unsupported_year_message y zs)" for y zs
    unfolding unsupported_year_message_def
    using str_contains_append [of "show_int y" "''Geography is not available in ''"
        "''. Available years include '' @ repr_tuple zs"]
    by simp
  have b: "str_contains (repr_tuple zs) (unsupported_year_message y zs)" for y zs
    unfolding unsupported_year_message_def
    using str_contains_append [of "repr_tuple zs"
        "''Geography is not available in '' @ show_int y @ ''. Available years include ''" "[]"]
    by simp
  show ?thesis
    using a b by (auto simp: supported_years_def Let_def unsupported_year_message_def)
qed

theorem supported_years_guard_witness:
  "state_zipcode example_float echo_server (acs5_client ''k'' None 3) (FList [''NAME''])
       ''17'' ''60614'' (Some 2010) =
     (Inl (UnsupportedYearException
        ''Geography is not available in 2010. Available years include (2023, 2022, 2021, 2020, 2019, 2018, 2017, 2016, 2015, 2014, 2013, 2012, 2011)''),
      acs5_client ''k'' None 3) \<and>
   state example_float echo_server (acs5_client ''k'' None 3) (FList [''NAME'']) ''17''
       (Some 2015) =
     acs_get example_float echo_server (acs5_client ''k'' None 3) (FList [''NAME''])
       [(''for'', ''state:17'')] (Some 2015)"
proof -
  let ?c = "acs5_client ''k'' None 3"
  have m: "''Geography is not available in '' @ show_int 2010 @
            ''. Available years include '' @ repr_tuple state_zipcode_years =
     ''Geography is not available in 2010. Available years include (2023, 2022, 2021, 2020, 2019, 2018, 2017, 2016, 2015, 2014, 2013, 2012, 2011)''"
    using message_2010 by (simp add: unsupported_year_message_def)
  have n: "(2010::int) \<notin> set state_zipcode_years"
    by (simp add: state_zipcode_years_def)
  have y: "(2015::int) \<in> set (years ?c)"
    by (simp add: acs5_client_def)
  have ne: "state_zipcode_years \<noteq> []"
    by (simp add: state_zipcode_years_def)
  have "supported_years state_zipcode_years (Some 2010) func ?c =
     (Inl (UnsupportedYearException
        (''Geography is not available in '' @ show_int 2010 @
            ''. Available years include '' @ repr_tuple state_zipcode_years)), ?c)"
    for func :: "client \<Rightarrow> (error + int row list) \<times> client"
    using supported_years_guard [where year = 2010 and kw_year = "Some 2010" and c = ?c
        and ys = state_zipcode_years and ys' = state_zipcode_years and func = func] n ne
    by simp
  then have "\<And>func :: client \<Rightarrow> (error + int row list) \<times> client.
     supported_years state_zipcode_years (Some 2010) func ?c =
     (Inl (UnsupportedYearException
        ''Geography is not available in 2010. Available years include (2023, 2022, 2021, 2020, 2019, 2018, 2017, 2016, 2015, 2014, 2013, 2012, 2011)''), ?c)"
    unfolding m .
  moreover from supported_years_guard [where year = 2015 and kw_year = "Some 2015" and c = ?c
      and ys = "[]" and ys' = "years ?c"] y
  have "\<And>func :: client \<Rightarrow> (error + int row list) \<times> client.
     supported_years [] (Some 2015) func ?c = func ?c"
    by (simp add: acs5_client_def)
  ultimately show ?thesis
    by (simp add: state_zipcode_def state_def)
qed

section \<open>The ZCTA selector\<close>

text \<open>
  Claim C8. The selector that \<open>ACS5Client.state_zipcode\<close> builds has the \<open>for\<close> clause
  \<open>zip code tabulation area:<zcta>\<close> in every year; before 2020 it also carries \<open>in\<close>,
  in 2020 and 2021 \<open>regionin\<close>, each set to \<open>state:<state_fips>\<close>, and from 2022 on
  nothing else. For a supported year the method is the \<open>get\<close> of this selector.
\<close>

theorem state_zipcode_geo_bands:
  "(year < 2020 \<longrightarrow>
      state_zipcode_geo year state_fips zcta =
        [(''for'', ''zip code tabulation area:'' @ zcta), (''in'', ''state:'' @ state_fips)]) \<and>
   (year = 2020 \<or> year = 2021 \<longrightarrow>
      state_zipcode_geo year state_fips zcta =
        [(''for'', ''zip code tabulation area:'' @ zcta),
         (''regionin'', ''state:'' @ state_fips)]) \<and>
   (2022 \<le> year \<longrightarrow>
      state_zipcode_geo year state_fips zcta =
        [(''for'', ''zip code tabulation area:'' @ zcta)]) \<and>
   (year \<in> set state_zipcode_years \<longrightarrow>
      state_zipcode pf tr c flds state_fips zcta (Some year) =
        acs_get pf tr c flds (state_zipcode_geo year state_fips zcta) (Some year))"
  by (auto simp: state_zipcode_geo_def state_zipcode_def supported_years_def Let_def
      state_zipcode_years_def)

theorem state_zipcode_geo_bands_witness:
  "state_zipcode_geo 2019 ''17'' ''60614'' =
     [(''for'', ''zip code tabulation area:60614''), (''in'', ''state:17'')] \<and>
   state_zipcode_geo 2021 ''17'' ''60614'' =
     [(''for'', ''zip code tabulation area:60614''), (''regionin'', ''state:17'')] \<and>
   state_zipcode_geo 2023 ''17'' ''60614'' =
     [(''for'', ''zip code tabulation area:60614'')] \<and>
   state_zipcode example_float echo_server (acs5_client ''k'' None 3) (FList [''NAME''])
       ''17'' ''60614'' (Some 2021) =
     acs_get example_float echo_server (acs5_client ''k'' None 3) (FList [''NAME''])
       [(''for'', ''zip code tabulation area:60614''), (''regionin'', ''state:17'')]
       (Some 2021)"
proof -
  have s: "(2021::int) \<in> set state_zipcode_years"
    by (simp add: state_zipcode_years_def)
  note b = state_zipcode_geo_bands [where state_fips = "''17''" and zcta = "''60614''"
      and pf = example_float and tr = echo_server and c = "acs5_client ''k'' None 3"
      and flds = "FList [''NAME'']"]
  have "state_zipcode_geo 2019 ''17'' ''60614'' =
     [(''for'', ''zip code tabulation area:60614''), (''in'', ''state:17'')]"
    using b [of 2019] by simp
  moreover have "state_zipcode_geo 2021 ''17'' ''60614'' =
     [(''for'', ''zip code tabulation area:60614''), (''regionin'', ''state:17'')]"
    using b [of 2021] by simp
  moreover have "state_zipcode_geo 2023 ''17'' ''60614'' =
     [(''for'', ''zip code tabulation area:60614'')]"
    using b [of 2023] by simp
  moreover have "state_zipcode example_float echo_server (acs5_client ''k'' None 3)
       (FList [''NAME'']) ''17'' ''60614'' (Some 2021) =
     acs_get example_float echo_server (acs5_client ''k'' None 3) (FList [''NAME''])
       [(''for'', ''zip code tabulation area:60614''), (''regionin'', ''state:17'')]
       (Some 2021)"
    using b [of 2021] s by simp
  ultimately show ?thesis by simp
qed

section \<open>Field typing\<close>



section \<open>The query executor and the retry decorator\<close>

lemma retry_loop_success: "func s = (Inr r, s') \<Longrightarrow> retry_loop n func s = (Inr r, s')"
  by (cases n) auto

lemma retry_loop_fatal:
  "func s = (Inl e, s') \<Longrightarrow> \<not> is_transient e \<Longrightarrow> retry_loop n func s = (Inl e, s')"
  by (cases n) auto

lemma is_transient_iff:
  "is_transient e \<longleftrightarrow>
     (\<exists>m. (e = CensusException m \<or> e = UnsupportedYearException m) \<and>
          str_contains transient_error_message m)"
  by (cases e) (auto simp: is_transient_def)

lemma retry_loop_count:
  assumes "\<And>s. g (snd (func s)) \<le> g s + (1::nat)"
  shows "g (snd (retry_loop n func s)) \<le> g s + Suc n"
proof (induction n arbitrary: s)
  case 0
  then show ?case using assms [of s] by simp
next
  case (Suc n)
  obtain r s' where f: "func s = (r, s')" by (cases "func s")
  have le: "g s' \<le> g s + 1" using assms [of s] f by simp
  show ?case
  proof (cases r)
    case (Inl e)
    show ?thesis
    proof (cases "is_transient e")
      case True
      then have "retry_loop (Suc n) func s = retry_loop n func s'" using f Inl by simp
      then show ?thesis using Suc.IH [of s'] le by simp
    next
      case False
      then show ?thesis using f Inl le by simp
    qed
  next
    case (Inr a)
    then show ?thesis using f le by simp
  qed
qed

lemma field_type_data_requests:
  "data_requests (session_log (snd (field_type tr c f y))) = data_requests (session_log c)"
  by (auto simp: field_type_def session_get_def data_requests_def is_data_request_def Let_def
      split: option.splits payload.splits prod.splits)

lemma field_types_data_requests:
  "data_requests (session_log (snd (field_types tr c hs y))) = data_requests (session_log c)"
proof (induction hs arbitrary: c)
  case Nil
  then show ?case by simp
next
  case (Cons h hs)
  obtain r c1 where f: "field_type tr c h y = (r, c1)" by (cases "field_type tr c h y")
  have c1: "data_requests (session_log c1) = data_requests (session_log c)"
    using field_type_data_requests [of tr c h y] f by simp
  show ?case
  proof (cases r)
    case (Inl e)
    then show ?thesis using f c1 by simp
  next
    case (Inr t)
    obtain r2 c2 where g: "field_types tr c1 hs y = (r2, c2)" by (cases "field_types tr c1 hs y")
    have "data_requests (session_log c2) = data_requests (session_log c1)"
      using Cons.IH [of c1] g by simp
    then show ?thesis using f Inr g c1 by (cases r2) auto
  qed
qed

lemma handle_response_data_requests:
  "data_requests (session_log (snd (handle_response pf tr c1 resp y fs sbg)))
     = data_requests (session_log c1)"
proof -
  have ft: "field_types tr c1 hs y = (r, c2) \<Longrightarrow>
      data_requests (session_log c2) = data_requests (session_log c1)" for hs r c2
    using field_types_data_requests [of tr c1 hs y] by simp
  show ?thesis
    by (auto simp: handle_response_def dest!: ft
        split: option.splits sum.splits prod.splits if_splits)
qed

lemma query_body_data_requests:
  "data_requests (session_log (snd (query_body pf tr c flds geo year sbg)))
     = data_requests (session_log c) + (if map_of geo ''for'' = None then 0 else 1)"
  apply (simp add: query_body_def Let_def session_get_def build_params_def
      handle_response_data_requests split: option.splits)
  apply (simp add: data_requests_def is_data_request_def)
  done

lemma query_body_sent:
  "build_params c (request_fields flds sbg) geo = Inr params \<Longrightarrow>
   query_body pf tr c flds geo year sbg =
     handle_response pf tr
       (c\<lparr>session_log := session_log c @ [Get (query_url c year) (Some params)]\<rparr>)
       (tr (session_log c) (Get (query_url c year) (Some params)))
       (case year of None \<Rightarrow> default_year c | Some y \<Rightarrow> y)
       (request_fields flds sbg) sbg"
  by (simp add: query_body_def Let_def session_get_def)

lemma query_first_success:
  "query_body pf tr (c\<lparr>query_log := query_log c @ [(flds, sbg)]\<rparr>) flds geo year sbg = (Inr r, c1)
   \<Longrightarrow> query pf tr c flds geo year sbg = (Inr r, c1)"
  by (simp add: query_def retry_on_transient_error_def query_attempt_def retry_loop_success)

lemma query_first_fatal:
  "query_body pf tr (c\<lparr>query_log := query_log c @ [(flds, sbg)]\<rparr>) flds geo year sbg = (Inl e, c1)
   \<Longrightarrow> \<not> is_transient e \<Longrightarrow> query pf tr c flds geo year sbg = (Inl e, c1)"
  by (simp add: query_def retry_on_transient_error_def query_attempt_def retry_loop_fatal)

lemma logged_client_params [simp]:
  "build_params (c\<lparr>query_log := l\<rparr>) fs geo = build_params c fs geo"
  "query_url (c\<lparr>query_log := l\<rparr>) year = query_url c year"
  by (simp_all add: build_params_def query_url_def cong: option.case_cong)

lemma log_update_commute:
  "c\<lparr>query_log := b, session_log := a\<rparr> = c\<lparr>session_log := a, query_log := b\<rparr>"
  by (cases c) simp

text \<open>
  Claim C4. Let the request of a call of \<open>query\<close> be built (the selector has a
  \<open>for\<close> clause) and let \<open>resp\<close> be the server's response to it. A 204 gives the
  empty result. A 200 whose body is not JSON and contains the invalid-key marker raises
  \<open>APIKeyError\<close> (not the JSON decoding error). Any status other than 200 and 204 raises
  \<open>CensusException\<close> carrying the response text. Each holds of the body of \<open>query\<close>;
  the decorated \<open>query\<close> returns the same, the last when the text is not the
  transient error, which the decorator retries.
\<close>

theorem query_response_handling:
  "build_params c (request_fields flds sbg) geo = Inr params \<and>
   req = Get (query_url c year) (Some params) \<and>
   resp = tr (session_log c) req \<and>
   c1 = c\<lparr>session_log := session_log c @ [req]\<rparr> \<longrightarrow>
   (status_code resp = 204 \<longrightarrow>
      query_body pf tr c flds geo year sbg = (Inr [], c1) \<and>
      query pf tr c flds geo year sbg = (Inr [], c1\<lparr>query_log := query_log c @ [(flds, sbg)]\<rparr>)) \<and>
   (status_code resp = 200 \<and> json resp = None \<and>
    str_contains invalid_key_marker (resp_text resp) \<longrightarrow>
      query_body pf tr c flds geo year sbg =
        (Inl (APIKeyError (join '' '' (splitlines (resp_text resp)))), c1) \<and>
      query pf tr c flds geo year sbg =
        (Inl (APIKeyError (join '' '' (splitlines (resp_text resp)))),
         c1\<lparr>query_log := query_log c @ [(flds, sbg)]\<rparr>)) \<and>
   (status_code resp \<noteq> 200 \<and> status_code resp \<noteq> 204 \<longrightarrow>
      query_body pf tr c flds geo year sbg = (Inl (CensusException (resp_text resp)), c1) \<and>
      (\<not> str_contains transient_error_message (resp_text resp) \<longrightarrow>
         query pf tr c flds geo year sbg =
           (Inl (CensusException (resp_text resp)),
            c1\<lparr>query_log := query_log c @ [(flds, sbg)]\<rparr>)))"
proof (intro impI, elim conjE)
  assume bp: "build_params c (request_fields flds sbg) geo = Inr params"
    and req: "req = Get (query_url c year) (Some params)"
    and resp: "resp = tr (session_log c) req"
    and c1: "c1 = c\<lparr>session_log := session_log c @ [req]\<rparr>"
  let ?cl = "c\<lparr>query_log := query_log c @ [(flds, sbg)]\<rparr>"
  let ?c2 = "c1\<lparr>query_log := query_log c @ [(flds, sbg)]\<rparr>"
  let ?y = "case year of None \<Rightarrow> default_year c | Some y \<Rightarrow> y"
  have body: "query_body pf tr c flds geo year sbg =
      handle_response pf tr c1 resp ?y (request_fields flds sbg) sbg"
    using query_body_sent [OF bp] req resp c1 by simp
  have bpl: "build_params ?cl (request_fields flds sbg) geo = Inr params"
    using bp by simp
  have bodyl: "query_body pf tr ?cl flds geo year sbg =
      handle_response pf tr ?c2 resp ?y (request_fields flds sbg) sbg"
    using query_body_sent [OF bpl, of pf tr year] req resp c1
    by (simp add: log_update_commute cong: option.case_cong)
  have nt: "\<not> is_transient (APIKeyError m)" for m
    by (simp add: is_transient_def)
  show "(status_code resp = 204 \<longrightarrow>
      query_body pf tr c flds geo year sbg = (Inr [], c1) \<and>
      query pf tr c flds geo year sbg = (Inr [], ?c2)) \<and>
   (status_code resp = 200 \<and> json resp = None \<and>
    str_contains invalid_key_marker (resp_text resp) \<longrightarrow>
      query_body pf tr c flds geo year sbg =
        (Inl (APIKeyError (join '' '' (splitlines (resp_text resp)))), c1) \<and>
      query pf tr c flds geo year sbg =
        (Inl (APIKeyError (join '' '' (splitlines (resp_text resp)))), ?c2)) \<and>
   (status_code resp \<noteq> 200 \<and> status_code resp \<noteq> 204 \<longrightarrow>
      query_body pf tr c flds geo year sbg = (Inl (CensusException (resp_text resp)), c1) \<and>
      (\<not> str_contains transient_error_message (resp_text resp) \<longrightarrow>
         query pf tr c flds geo year sbg = (Inl (CensusException (resp_text resp)), ?c2)))"
  proof (intro conjI impI)
    assume s: "status_code resp = 204"
    show "query_body pf tr c flds geo year sbg = (Inr [], c1)"
      using body s by (simp add: handle_response_def)
    have "query_body pf tr ?cl flds geo year sbg = (Inr [], ?c2)"
      using bodyl s by (simp add: handle_response_def)
    then show "query pf tr c flds geo year sbg = (Inr [], ?c2)"
      by (rule query_first_success)
  next
    assume s: "status_code resp = 200 \<and> json resp = None \<and>
      str_contains invalid_key_marker (resp_text resp)"
    show "query_body pf tr c flds geo year sbg =
        (Inl (APIKeyError (join '' '' (splitlines (resp_text resp)))), c1)"
      using body s by (simp add: handle_response_def)
    have "query_body pf tr ?cl flds geo year sbg =
        (Inl (APIKeyError (join '' '' (splitlines (resp_text resp)))), ?c2)"
      using bodyl s by (simp add: handle_response_def)
    then show "query pf tr c flds geo year sbg =
        (Inl (APIKeyError (join '' '' (splitlines (resp_text resp)))), ?c2)"
      using nt by (rule query_first_fatal)
  next
    assume s: "status_code resp \<noteq> 200 \<and> status_code resp \<noteq> 204"
    show "query_body pf tr c flds geo year sbg = (Inl (CensusException (resp_text resp)), c1)"
      using body s by (simp add: handle_response_def)
  next
    assume s: "status_code resp \<noteq> 200 \<and> status_code resp \<noteq> 204"
      and t: "\<not> str_contains transient_error_message (resp_text resp)"
    have "query_body pf tr ?cl flds geo year sbg = (Inl (CensusException (resp_text resp)), ?c2)"
      using bodyl s by (simp add: handle_response_def)
    moreover have "\<not> is_transient (CensusException (resp_text resp))"
      using t by (simp add: is_transient_def)
    ultimately show "query pf tr c flds geo year sbg =
        (Inl (CensusException (resp_text resp)), ?c2)"
      by (rule query_first_fatal)
  qed
qed


lemma example_params:
  "build_params (acs5_client ''k'' None r) (request_fields (FList [''NAME'']) False)
     [(''for'', ''state:*'')] =
   Inr [(''get'', ''NAME''), (''for'', ''state:*''), (''key'', ''k'')]"
  by (simp add: build_params_def request_fields_def acs5_client_def)

theorem query_response_handling_witness:
  "fst (query example_float (constant_server no_content) (acs5_client ''k'' None 3)
          (FList [''NAME'']) [(''for'', ''state:*'')] None False) = Inr [] \<and>
   fst (query example_float (constant_server invalid_key_page) (acs5_client ''k'' None 3)
          (FList [''NAME'']) [(''for'', ''state:*'')] None False) =
     Inl (APIKeyError
       ''<html><head><title>Invalid Key</title></head> <body>A valid key must be included.</body></html>'') \<and>
   fst (query example_float (constant_server unknown_variable) (acs5_client ''k'' None 3)
          (FList [''NAME'']) [(''for'', ''state:*'')] None False) =
     Inl (CensusException ''error: unknown variable NAMEX'')"
proof -
  let ?c = "acs5_client ''k'' None 3"
  note e = conjI [OF example_params conjI [OF refl conjI [OF refl refl]]]
  have a: "fst (query example_float (constant_server no_content) ?c
          (FList [''NAME'']) [(''for'', ''state:*'')] None False) = Inr []"
    using mp [OF query_response_handling [where c = ?c and flds = "FList [''NAME'']"
          and sbg = False and geo = "[(''for'', ''state:*'')]" and year = None
          and pf = example_float and tr = "constant_server no_content"] e]
    by (simp add: constant_server_def no_content_def)
  have k: "str_contains invalid_key_marker (resp_text invalid_key_page)"
    by (simp add: invalid_key_marker_def invalid_key_page_def)
  have l: "join '' '' (splitlines (resp_text invalid_key_page)) =
     ''<html><head><title>Invalid Key</title></head> <body>A valid key must be included.</body></html>''"
    by (simp add: invalid_key_page_def splitlines_def line_boundary_def)
  have b: "fst (query example_float (constant_server invalid_key_page) ?c
          (FList [''NAME'']) [(''for'', ''state:*'')] None False) =
     Inl (APIKeyError
       ''<html><head><title>Invalid Key</title></head> <body>A valid key must be included.</body></html>'')"
    using mp [OF query_response_handling [where c = ?c and flds = "FList [''NAME'']"
          and sbg = False and geo = "[(''for'', ''state:*'')]" and year = None
          and pf = example_float and tr = "constant_server invalid_key_page"] e] k l
    by (simp add: constant_server_def) (simp add: invalid_key_page_def)
  have t: "\<not> str_contains transient_error_message (resp_text unknown_variable)"
    by (simp add: transient_error_message_def unknown_variable_def)
  have d: "fst (query example_float (constant_server unknown_variable) ?c
          (FList [''NAME'']) [(''for'', ''state:*'')] None False) =
     Inl (CensusException ''error: unknown variable NAMEX'')"
    using mp [OF query_response_handling [where c = ?c and flds = "FList [''NAME'']"
          and sbg = False and geo = "[(''for'', ''state:*'')]" and year = None
          and pf = example_float and tr = "constant_server unknown_variable"] e] t
    by (simp add: constant_server_def) (simp add: unknown_variable_def)
  show ?thesis using a b d by simp
qed

lemma retry_loop_all_transient:
  assumes "\<And>s. fst (func s) = Inl e" and "is_transient e"
    and "\<And>s. g (snd (func s)) = g s + (1::nat)"
  shows "fst (retry_loop n func s) = Inl e \<and> g (snd (retry_loop n func s)) = g s + Suc n"
proof (induction n arbitrary: s)
  case 0
  then show ?case using assms(1) [of s] assms(3) [of s] by simp
next
  case (Suc n)
  obtain s' where f: "func s = (Inl e, s')"
    using assms(1) [of s] by (cases "func s") auto
  have "g s' = g s + 1" using assms(3) [of s] f by simp
  then show ?case using f assms(2) Suc.IH [of s'] by simp
qed

lemma query_data_requests_le:
  "data_requests (session_log (snd (query pf tr c flds geo year sbg)))
     \<le> data_requests (session_log c) + nat (max (retries c) 1)"
proof -
  let ?g = "\<lambda>s :: client \<times> fieldseq. data_requests (session_log (fst s))"
  let ?f = "query_attempt pf tr geo year sbg"
  let ?s = "(c\<lparr>query_log := query_log c @ [(flds, sbg)]\<rparr>, flds)"
  have step: "?g (snd (?f s)) \<le> ?g s + 1" for s
    using query_body_data_requests [of pf tr "fst s" "snd s" geo year sbg]
    by (simp add: query_attempt_def case_prod_beta)
  have "?g (snd (retry_loop (nat (max (retries c - 1) 0)) ?f ?s))
      \<le> ?g ?s + Suc (nat (max (retries c - 1) 0))"
    by (rule retry_loop_count [of ?g ?f, OF step])
  moreover have "Suc (nat (max (retries c - 1) 0)) = nat (max (retries c) 1)"
    by auto
  ultimately show ?thesis
    by (simp add: query_def retry_on_transient_error_def case_prod_beta)
qed

lemma query_constant_transient:
  assumes "map_of geo ''for'' \<noteq> None"
    and "status_code resp \<noteq> 200" and "status_code resp \<noteq> 204"
    and "str_contains transient_error_message (resp_text resp)"
  shows "fst (query pf (constant_server resp) c flds geo year sbg) =
           Inl (CensusException (resp_text resp)) \<and>
         data_requests (session_log (snd (query pf (constant_server resp) c flds geo year sbg)))
           = data_requests (session_log c) + nat (max (retries c) 1)"
proof -
  let ?g = "\<lambda>s :: client \<times> fieldseq. data_requests (session_log (fst s))"
  let ?f = "query_attempt pf (constant_server resp) geo year sbg"
  let ?s = "(c\<lparr>query_log := query_log c @ [(flds, sbg)]\<rparr>, flds)"
  let ?e = "CensusException (resp_text resp)"
  have res: "fst (?f s) = Inl ?e" for s
    using assms(1-3)
    by (auto simp: query_attempt_def query_body_def build_params_def Let_def session_get_def
        constant_server_def handle_response_def split: prod.splits option.splits)
  have step: "?g (snd (?f s)) = ?g s + 1" for s
    using query_body_data_requests [of pf "constant_server resp" "fst s" "snd s" geo year sbg]
      assms(1)
    by (simp add: query_attempt_def case_prod_beta)
  have tr: "is_transient ?e"
    using assms(4) by (simp add: is_transient_def)
  have "fst (retry_loop (nat (max (retries c - 1) 0)) ?f ?s) = Inl ?e \<and>
      ?g (snd (retry_loop (nat (max (retries c - 1) 0)) ?f ?s))
        = ?g ?s + Suc (nat (max (retries c - 1) 0))"
    by (rule retry_loop_all_transient [of ?f ?e ?g, OF res tr step])
  moreover have "Suc (nat (max (retries c - 1) 0)) = nat (max (retries c) 1)"
    by auto
  ultimately show ?thesis
    by (simp add: query_def retry_on_transient_error_def case_prod_beta)
qed


lemma failing_text: "str_contains transient_error_message transient_page"
proof -
  have "str_contains transient_error_message (''error: '' @ transient_error_message @ [])"
    by (rule str_contains_append)
  then show ?thesis by (simp only: append_Nil2 transient_page_def)
qed

text \<open>
  Claim C5, as stated, fails for a client made with \<open>retries=0\<close>: the budget is zero
  attempts, and \<open>query\<close> sends one request.
\<close>

theorem retry_budget_counterexample:
  "retries (acs5_client ''k'' None 0) = 0 \<and>
   data_requests (session_log (snd (query example_float failing_server
       (acs5_client ''k'' None 0) (FList [''NAME'']) [(''for'', ''state:*'')] None False))) = 1"
proof -
  have "data_requests (session_log (snd (query example_float failing_server
       (acs5_client ''k'' None 0) (FList [''NAME'']) [(''for'', ''state:*'')] None False)))
     = data_requests (session_log (acs5_client ''k'' None 0))
        + nat (max (retries (acs5_client ''k'' None 0)) 1)"
    unfolding failing_server_def
    by (rule query_constant_transient [THEN conjunct2]) (simp_all add: failing_text)
  then show ?thesis
    by (simp add: acs5_client_def data_requests_def)
qed

lemma state_before_attempt_simps:
  "state_before_attempt 0 func s = s"
  "state_before_attempt (Suc i) func s = state_before_attempt i func (snd (func s))"
  by (simp_all add: state_before_attempt_def funpow_Suc_right del: funpow.simps)

lemma retry_loop_attempts:
  assumes "\<forall>i<k. transient_failure (fst (func (state_before_attempt i func s)))"
    and "k \<le> n"
    and "k = n \<or> \<not> transient_failure (fst (func (state_before_attempt k func s)))"
  shows "retry_loop n func s = func (state_before_attempt k func s)"
  using assms
proof (induction n arbitrary: k s)
  case 0
  then show ?case by (simp add: state_before_attempt_simps)
next
  case (Suc n)
  obtain r s' where f: "func s = (r, s')" by (cases "func s")
  show ?case
  proof (cases k)
    case 0
    then have "\<not> transient_failure r"
      using Suc.prems(3) f by (simp add: state_before_attempt_simps)
    then show ?thesis
      using f 0 by (cases r) (simp_all add: state_before_attempt_simps transient_failure_def)
  next
    case (Suc k')
    have "transient_failure r"
      using Suc.prems(1) [rule_format, of 0] Suc f by (simp add: state_before_attempt_simps)
    then obtain e where r: "r = Inl e" "is_transient e"
      by (cases r) (simp_all add: transient_failure_def)
    have 1: "\<forall>i<k'. transient_failure (fst (func (state_before_attempt i func s')))"
    proof (intro allI impI)
      fix i assume "i < k'"
      then have "Suc i < k" using Suc by simp
      then show "transient_failure (fst (func (state_before_attempt i func s')))"
        using Suc.prems(1) [rule_format, of "Suc i"] f by (simp add: state_before_attempt_simps)
    qed
    have 2: "k' \<le> n" using Suc.prems(2) Suc by simp
    have 3: "k' = n \<or> \<not> transient_failure (fst (func (state_before_attempt k' func s')))"
      using Suc.prems(3) Suc f by (simp add: state_before_attempt_simps)
    have "retry_loop n func s' = func (state_before_attempt k' func s')"
      by (rule Suc.IH [OF 1 2 3])
    then show ?thesis
      using f r Suc by (simp add: state_before_attempt_simps)
  qed
qed

lemma state_before_attempt_Suc:
  "state_before_attempt (Suc i) func s = snd (func (state_before_attempt i func s))"
  by (simp add: state_before_attempt_def)

lemma attempts_data_requests:
  assumes "map_of geo ''for'' \<noteq> None"
  shows "data_requests (session_log (fst (state_before_attempt i
            (query_attempt pf tr geo year sbg) s)))
         = data_requests (session_log (fst s)) + i"
proof (induction i)
  case 0
  then show ?case by (simp add: state_before_attempt_simps)
next
  case (Suc i)
  have step: "data_requests (session_log (fst (snd (query_attempt pf tr geo year sbg s'))))
      = data_requests (session_log (fst s')) + 1" for s'
    using query_body_data_requests [of pf tr "fst s'" "snd s'" geo year sbg] assms
    by (simp add: query_attempt_def case_prod_beta)
  show ?case
    unfolding state_before_attempt_Suc step Suc.IH by simp
qed

lemma query_attempts:
  fixes pf :: "string \<Rightarrow> ('f::linorder) option"
  assumes "\<forall>i<k. transient_failure (fst (query_attempt pf tr geo year sbg
              (state_before_attempt i (query_attempt pf tr geo year sbg)
                 (c\<lparr>query_log := query_log c @ [(flds, sbg)]\<rparr>, flds))))"
    and "k < nat (max (retries c) 1)"
    and "Suc k = nat (max (retries c) 1) \<or>
         \<not> transient_failure (fst (query_attempt pf tr geo year sbg
              (state_before_attempt k (query_attempt pf tr geo year sbg)
                 (c\<lparr>query_log := query_log c @ [(flds, sbg)]\<rparr>, flds))))"
  shows "query pf tr c flds geo year sbg =
           (fst (query_attempt pf tr geo year sbg
              (state_before_attempt k (query_attempt pf tr geo year sbg)
                 (c\<lparr>query_log := query_log c @ [(flds, sbg)]\<rparr>, flds))),
            fst (snd (query_attempt pf tr geo year sbg
              (state_before_attempt k (query_attempt pf tr geo year sbg)
                 (c\<lparr>query_log := query_log c @ [(flds, sbg)]\<rparr>, flds)))))"
    and "map_of geo ''for'' \<noteq> None \<longrightarrow>
         data_requests (session_log (snd (query pf tr c flds geo year sbg)))
           = data_requests (session_log c) + Suc k"
proof -
  let ?f = "query_attempt pf tr geo year sbg"
  let ?s = "(c\<lparr>query_log := query_log c @ [(flds, sbg)]\<rparr>, flds)"
  let ?n = "nat (max (retries c - 1) 0)"
  have le: "k \<le> ?n" using assms(2) by auto
  have last: "k = ?n \<or> \<not> transient_failure (fst (?f (state_before_attempt k ?f ?s)))"
    using assms(3) by auto
  have loop: "retry_loop ?n ?f ?s = ?f (state_before_attempt k ?f ?s)"
    by (rule retry_loop_attempts [OF assms(1) le last])
  show q: "query pf tr c flds geo year sbg =
      (fst (?f (state_before_attempt k ?f ?s)), fst (snd (?f (state_before_attempt k ?f ?s))))"
    using loop by (simp add: query_def retry_on_transient_error_def case_prod_beta)
  show "map_of geo ''for'' \<noteq> None \<longrightarrow>
         data_requests (session_log (snd (query pf tr c flds geo year sbg)))
           = data_requests (session_log c) + Suc k"
  proof
    assume g: "map_of geo ''for'' \<noteq> None"
    have "data_requests (session_log (fst (state_before_attempt (Suc k) ?f ?s)))
        = data_requests (session_log (fst ?s)) + Suc k"
      by (rule attempts_data_requests [OF g])
    then show "data_requests (session_log (snd (query pf tr c flds geo year sbg)))
           = data_requests (session_log c) + Suc k"
      unfolding q by (simp add: state_before_attempt_Suc)
  qed
qed


lemma transient_failure_iff:
  "transient_failure r \<longleftrightarrow> (\<exists>e. r = Inl e \<and> is_transient e)"
  by (cases r) (simp_all add: transient_failure_def)

lemma transient_then_unknown_run:
  "fst (query_attempt example_float transient_then_unknown [(''for'', ''state:*'')] None False
          (c, FList [''NAME''])) =
     (if data_requests (session_log c) = 0 then Inl (CensusException transient_page)
      else if data_requests (session_log c) = 1
        then Inl (CensusException ''error: unknown variable NAMEX'')
      else Inr [])"
  "data_requests (session_log (fst (snd (query_attempt example_float transient_then_unknown
          [(''for'', ''state:*'')] None False (c, FList [''NAME''])))))
     = Suc (data_requests (session_log c))"
proof -
  have eq: "is_data_request = (\<lambda>r. case r of Get u p \<Rightarrow> p \<noteq> None)"
    by (rule ext) (simp add: is_data_request_def)
  show "fst (query_attempt example_float transient_then_unknown [(''for'', ''state:*'')]
          None False (c, FList [''NAME''])) =
     (if data_requests (session_log c) = 0 then Inl (CensusException transient_page)
      else if data_requests (session_log c) = 1
        then Inl (CensusException ''error: unknown variable NAMEX'')
      else Inr [])"
    by (auto simp: query_attempt_def query_body_def build_params_def session_get_def
        transient_then_unknown_def scripted_server_def data_requests_def eq
        handle_response_def Let_def request_fields_def unknown_variable_def no_content_def
        case_prod_beta less_Suc_eq)
  show "data_requests (session_log (fst (snd (query_attempt example_float
          transient_then_unknown [(''for'', ''state:*'')] None False (c, FList [''NAME''])))))
     = Suc (data_requests (session_log c))"
    using query_body_data_requests [of example_float transient_then_unknown c
        "FList [''NAME'']" "[(''for'', ''state:*'')]" None False]
    by (simp add: query_attempt_def case_prod_beta)
qed

text \<open>
  Claim C5, amended. Number the attempts of one call of \<open>query\<close> from 0, attempt \<open>i\<close>
  being the body of \<open>query\<close> run on the client and the argument \<open>fields\<close> as the
  attempts before it left them. If the attempts before attempt \<open>k\<close> all raised a
  \<open>CensusException\<close> whose message contains the transient-error string, if
  \<open>k < max(retries, 1)\<close>, and if attempt \<open>k\<close> is the last of the budget or is not
  such a failure, then the call ends with the outcome of attempt \<open>k\<close>, value or error,
  after exactly \<open>k + 1\<close> data requests. So a value is returned and any other error is
  raised at its first occurrence, at whichever attempt, only a transient failure is
  followed by another attempt, and the last attempt of the budget propagates whatever
  it raises. One call never sends more than \<open>max(retries, 1)\<close> data requests, and
  against a server that always answers with the transient error it makes exactly
  \<open>max(retries, 1)\<close> attempts and raises the last \<open>CensusException\<close>. An attempt
  starts from the state that the attempt before it left: nothing is done between two
  attempts.
\<close>

theorem retry_policy:
  "data_requests (session_log (snd (query pf tr c flds geo year sbg)))
     \<le> data_requests (session_log c) + nat (max (retries c) 1) \<and>
   (query_body pf tr (c\<lparr>query_log := query_log c @ [(flds, sbg)]\<rparr>) flds geo year sbg
       = (Inr r, c1) \<longrightarrow>
      query pf tr c flds geo year sbg = (Inr r, c1)) \<and>
   (query_body pf tr (c\<lparr>query_log := query_log c @ [(flds, sbg)]\<rparr>) flds geo year sbg
       = (Inl e, c1) \<and> \<not> is_transient e \<longrightarrow>
      query pf tr c flds geo year sbg = (Inl e, c1)) \<and>
   (is_transient e \<longleftrightarrow>
      (\<exists>m. (e = CensusException m \<or> e = UnsupportedYearException m) \<and>
           str_contains transient_error_message m)) \<and>
   (map_of geo ''for'' \<noteq> None \<and> status_code resp \<noteq> 200 \<and> status_code resp \<noteq> 204 \<and>
    str_contains transient_error_message (resp_text resp) \<longrightarrow>
      fst (query pf (constant_server resp) c flds geo year sbg) =
        Inl (CensusException (resp_text resp)) \<and>
      data_requests (session_log (snd (query pf (constant_server resp) c flds geo year sbg)))
        = data_requests (session_log c) + nat (max (retries c) 1)) \<and>
   ((\<forall>i<k. transient_failure (fst (query_attempt pf tr geo year sbg
              (state_before_attempt i (query_attempt pf tr geo year sbg)
                 (c\<lparr>query_log := query_log c @ [(flds, sbg)]\<rparr>, flds))))) \<and>
    k < nat (max (retries c) 1) \<and>
    (Suc k = nat (max (retries c) 1) \<or>
     \<not> transient_failure (fst (query_attempt pf tr geo year sbg
              (state_before_attempt k (query_attempt pf tr geo year sbg)
                 (c\<lparr>query_log := query_log c @ [(flds, sbg)]\<rparr>, flds))))) \<longrightarrow>
      query pf tr c flds geo year sbg =
        (fst (query_attempt pf tr geo year sbg
              (state_before_attempt k (query_attempt pf tr geo year sbg)
                 (c\<lparr>query_log := query_log c @ [(flds, sbg)]\<rparr>, flds))),
         fst (snd (query_attempt pf tr geo year sbg
              (state_before_attempt k (query_attempt pf tr geo year sbg)
                 (c\<lparr>query_log := query_log c @ [(flds, sbg)]\<rparr>, flds))))) \<and>
      (map_of geo ''for'' \<noteq> None \<longrightarrow>
         data_requests (session_log (snd (query pf tr c flds geo year sbg)))
           = data_requests (session_log c) + Suc k)) \<and>
   (transient_failure res \<longleftrightarrow> (\<exists>e'. res = Inl e' \<and> is_transient e')) \<and>
   state_before_attempt 0 func s = s \<and>
   state_before_attempt (Suc i) func s = snd (func (state_before_attempt i func s))"
proof -
  have old: "data_requests (session_log (snd (query pf tr c flds geo year sbg)))
     \<le> data_requests (session_log c) + nat (max (retries c) 1) \<and>
   (query_body pf tr (c\<lparr>query_log := query_log c @ [(flds, sbg)]\<rparr>) flds geo year sbg
       = (Inr r, c1) \<longrightarrow>
      query pf tr c flds geo year sbg = (Inr r, c1)) \<and>
   (query_body pf tr (c\<lparr>query_log := query_log c @ [(flds, sbg)]\<rparr>) flds geo year sbg
       = (Inl e, c1) \<and> \<not> is_transient e \<longrightarrow>
      query pf tr c flds geo year sbg = (Inl e, c1)) \<and>
   (is_transient e \<longleftrightarrow>
      (\<exists>m. (e = CensusException m \<or> e = UnsupportedYearException m) \<and>
           str_contains transient_error_message m)) \<and>
   (map_of geo ''for'' \<noteq> None \<and> status_code resp \<noteq> 200 \<and> status_code resp \<noteq> 204 \<and>
    str_contains transient_error_message (resp_text resp) \<longrightarrow>
      fst (query pf (constant_server resp) c flds geo year sbg) =
        Inl (CensusException (resp_text resp)) \<and>
      data_requests (session_log (snd (query pf (constant_server resp) c flds geo year sbg)))
        = data_requests (session_log c) + nat (max (retries c) 1))"
    using query_data_requests_le [of pf tr c flds geo year sbg]
      query_first_success [of pf tr c flds sbg geo year r c1]
      query_first_fatal [of pf tr c flds sbg geo year e c1]
      is_transient_iff [of e]
      query_constant_transient [of geo resp pf c flds year sbg]
    by blast
  have new: "(\<forall>i<k. transient_failure (fst (query_attempt pf tr geo year sbg
              (state_before_attempt i (query_attempt pf tr geo year sbg)
                 (c\<lparr>query_log := query_log c @ [(flds, sbg)]\<rparr>, flds))))) \<and>
    k < nat (max (retries c) 1) \<and>
    (Suc k = nat (max (retries c) 1) \<or>
     \<not> transient_failure (fst (query_attempt pf tr geo year sbg
              (state_before_attempt k (query_attempt pf tr geo year sbg)
                 (c\<lparr>query_log := query_log c @ [(flds, sbg)]\<rparr>, flds))))) \<longrightarrow>
      query pf tr c flds geo year sbg =
        (fst (query_attempt pf tr geo year sbg
              (state_before_attempt k (query_attempt pf tr geo year sbg)
                 (c\<lparr>query_log := query_log c @ [(flds, sbg)]\<rparr>, flds))),
         fst (snd (query_attempt pf tr geo year sbg
              (state_before_attempt k (query_attempt pf tr geo year sbg)
                 (c\<lparr>query_log := query_log c @ [(flds, sbg)]\<rparr>, flds))))) \<and>
      (map_of geo ''for'' \<noteq> None \<longrightarrow>
         data_requests (session_log (snd (query pf tr c flds geo year sbg)))
           = data_requests (session_log c) + Suc k)"
    using query_attempts [of k pf tr geo year sbg c flds] by blast
  show ?thesis
    by (intro conjI old [THEN conjunct1] old [THEN conjunct2, THEN conjunct1]
        old [THEN conjunct2, THEN conjunct2, THEN conjunct1]
        old [THEN conjunct2, THEN conjunct2, THEN conjunct2, THEN conjunct1]
        old [THEN conjunct2, THEN conjunct2, THEN conjunct2, THEN conjunct2]
        new transient_failure_iff state_before_attempt_simps(1) state_before_attempt_Suc)
qed

theorem retry_policy_witness:
  "fst (query example_float failing_server (acs5_client ''k'' None 3) (FList [''NAME''])
          [(''for'', ''state:*'')] None False) =
     Inl (CensusException transient_page) \<and>
   data_requests (session_log (snd (query example_float failing_server
       (acs5_client ''k'' None 3) (FList [''NAME'']) [(''for'', ''state:*'')] None False))) = 3 \<and>
   query example_float (constant_server unknown_variable) (acs5_client ''k'' None 3)
       (FList [''NAME'']) [(''for'', ''state:*'')] None False =
     (Inl (CensusException ''error: unknown variable NAMEX''),
      acs5_client ''k'' None 3
        \<lparr>query_log := [(FList [''NAME''], False)],
         session_log := [Get ''https://api.census.gov/data/2023/acs5''
            (Some [(''get'', ''NAME''), (''for'', ''state:*''), (''key'', ''k'')])]\<rparr>) \<and>
   fst (query example_float transient_then_unknown (acs5_client ''k'' None 3)
          (FList [''NAME'']) [(''for'', ''state:*'')] None False) =
     Inl (CensusException ''error: unknown variable NAMEX'') \<and>
   data_requests (session_log (snd (query example_float transient_then_unknown
       (acs5_client ''k'' None 3) (FList [''NAME'']) [(''for'', ''state:*'')] None False))) = 2"
proof -
  let ?c = "acs5_client ''k'' None 3"
  let ?geo = "[(''for'', ''state:*'')]"
  let ?r = "\<lparr>status_code = 500, resp_text = transient_page, json = None\<rparr>"
  let ?c1 = "?c\<lparr>query_log := [(FList [''NAME''], False)],
         session_log := [Get ''https://api.census.gov/data/2023/acs5''
            (Some [(''get'', ''NAME''), (''for'', ''state:*''), (''key'', ''k'')])]\<rparr>"
  note p = retry_policy [where pf = example_float and c = ?c and flds = "FList [''NAME'']"
      and geo = ?geo and year = None and sbg = False]
  have a: "fst (query example_float failing_server ?c (FList [''NAME''])
          [(''for'', ''state:*'')] None False) =
     Inl (CensusException transient_page) \<and>
   data_requests (session_log (snd (query example_float failing_server
       ?c (FList [''NAME'']) [(''for'', ''state:*'')] None False))) = 3"
  proof -
    have f: "fst (query example_float (constant_server ?r) ?c (FList [''NAME''])
          [(''for'', ''state:*'')] None False) = Inl (CensusException (resp_text ?r)) \<and>
      data_requests (session_log (snd (query example_float (constant_server ?r) ?c
          (FList [''NAME'']) [(''for'', ''state:*'')] None False)))
        = data_requests (session_log ?c) + nat (max (retries ?c) 1)"
      using p [where resp = ?r, THEN conjunct2, THEN conjunct2, THEN conjunct2, THEN conjunct2,
          THEN conjunct1]
        failing_text
      by simp
    have v: "data_requests (session_log ?c) + nat (max (retries ?c) 1) = 3"
      by (simp add: acs5_client_def data_requests_def)
    show ?thesis
      using f unfolding v by (simp add: failing_server_def)
  qed
  have u: "query_url ?c None = ''https://api.census.gov/data/2023/acs5''"
    by (simp add: query_url_def acs5_client_def show_int_def show_nat.simps)
  have b: "query_body example_float (constant_server unknown_variable)
       (?c\<lparr>query_log := query_log ?c @ [(FList [''NAME''], False)]\<rparr>)
       (FList [''NAME'']) [(''for'', ''state:*'')] None False =
     (Inl (CensusException ''error: unknown variable NAMEX''), ?c1)"
    using query_body_sent [of "?c\<lparr>query_log := query_log ?c @ [(FList [''NAME''], False)]\<rparr>"
        "FList [''NAME'']" False "[(''for'', ''state:*'')]"
        "[(''get'', ''NAME''), (''for'', ''state:*''), (''key'', ''k'')]"
        example_float "constant_server unknown_variable" None] example_params [of 3] u
    by (simp add: handle_response_def constant_server_def unknown_variable_def)
      (simp add: acs5_client_def)
  have n: "\<not> is_transient (CensusException ''error: unknown variable NAMEX'')"
    by (simp add: is_transient_def transient_error_message_def)
  have d: "query example_float (constant_server unknown_variable) ?c
       (FList [''NAME'']) [(''for'', ''state:*'')] None False =
     (Inl (CensusException ''error: unknown variable NAMEX''), ?c1)"
    using p [where tr = "constant_server unknown_variable"
        and e = "CensusException ''error: unknown variable NAMEX''" and ?c1.0 = ?c1,
        THEN conjunct2, THEN conjunct2, THEN conjunct1] b n
    by blast
  let ?f = "query_attempt example_float transient_then_unknown ?geo None False"
  let ?s = "(?c\<lparr>query_log := query_log ?c @ [(FList [''NAME''], False)]\<rparr>, FList [''NAME''])"
  have c0: "data_requests (session_log ?c) = 0" "retries ?c = 3"
    by (simp_all add: acs5_client_def data_requests_def)
  have t: "is_transient (CensusException transient_page)"
    using failing_text by (simp add: is_transient_def)
  have r0: "fst (?f ?s) = Inl (CensusException transient_page)"
    using c0 by (simp add: transient_then_unknown_run(1))
  have fl: "snd (snd (?f ?s)) = FList [''NAME'']"
    by (simp add: query_attempt_def case_prod_beta)
  have s1: "snd (?f ?s) = (fst (snd (?f ?s)), FList [''NAME''])"
    using fl by (metis prod.collapse)
  have d1: "data_requests (session_log (fst (snd (?f ?s)))) = 1"
    using c0 by (simp add: transient_then_unknown_run(2))
  have r1: "fst (?f (snd (?f ?s))) = Inl (CensusException ''error: unknown variable NAMEX'')"
    by (subst s1) (simp add: transient_then_unknown_run(1) d1)
  have st0: "state_before_attempt 0 ?f ?s = ?s"
    and st1: "state_before_attempt 1 ?f ?s = snd (?f ?s)"
    by (simp_all add: state_before_attempt_def)
  have h1: "\<forall>i<1. transient_failure (fst (?f (state_before_attempt i ?f ?s)))"
    using r0 t by (simp add: st0 transient_failure_def)
  have h2: "(1::nat) < nat (max (retries ?c) 1)"
    using c0 by simp
  have h3: "Suc 1 = nat (max (retries ?c) 1) \<or>
      \<not> transient_failure (fst (?f (state_before_attempt 1 ?f ?s)))"
    using r1 n unfolding st1 by (simp add: transient_failure_def)
  have g: "query example_float transient_then_unknown ?c (FList [''NAME'']) ?geo None False =
        (fst (?f (state_before_attempt 1 ?f ?s)), fst (snd (?f (state_before_attempt 1 ?f ?s)))) \<and>
      (map_of ?geo ''for'' \<noteq> None \<longrightarrow>
         data_requests (session_log (snd (query example_float transient_then_unknown ?c
             (FList [''NAME'']) ?geo None False)))
           = data_requests (session_log ?c) + Suc 1)"
    using p [where tr = transient_then_unknown and k = 1,
        THEN conjunct2, THEN conjunct2, THEN conjunct2, THEN conjunct2, THEN conjunct2,
        THEN conjunct1, THEN mp, OF conjI [OF h1 conjI [OF h2 h3]]] .
  have e: "fst (query example_float transient_then_unknown ?c (FList [''NAME'']) ?geo None False)
      = Inl (CensusException ''error: unknown variable NAMEX'')"
    using g [THEN conjunct1] r1 unfolding st1 by simp
  have e2: "data_requests (session_log (snd (query example_float transient_then_unknown ?c
       (FList [''NAME'']) ?geo None False))) = 2"
    using g [THEN conjunct2] c0(1) by simp
  show ?thesis using a d e e2 by simp
qed

section \<open>The field type cache\<close>











lemma field_url_updates [simp]:
  "field_url (c\<lparr>session_log := l\<rparr>) f y = field_url c f y"
  "field_url (c\<lparr>field_type_cache := k\<rparr>) f y = field_url c f y"
  by (simp_all add: field_url_def)













































section \<open>Chunks, merging and sorting\<close>

lemma py_range_length: "0 < step \<Longrightarrow> length (py_range i stop step) = (stop - i + step - 1) div step"
proof (induction i stop step rule: py_range.induct)
  case (1 i stop step)
  show ?case
  proof (cases "i < stop")
    case True
    have "py_range i stop step = i # py_range (i + step) stop step"
      using True "1.prems" by (subst py_range.simps) simp
    moreover have "length (py_range (i + step) stop step) = (stop - (i + step) + step - 1) div step"
      using "1.IH" True "1.prems" by simp
    moreover have "Suc ((stop - (i + step) + step - 1) div step) = (stop - i + step - 1) div step"
    proof (cases "i + step \<le> stop")
      case le: True
      define a where "a = stop - (i + step) + step - 1"
      have e: "stop - i + step - 1 = a + step"
        using le True "1.prems" by (simp add: a_def)
      have "(a + step) div step = Suc (a div step)"
        using div_add_self2 [of step a] "1.prems" by simp
      then have "(stop - i + step - 1) div step = Suc (a div step)"
        unfolding e .
      then show ?thesis unfolding a_def by (rule sym)
    next
      case False
      then have a: "stop - (i + step) + step - 1 = step - 1" by simp
      have b: "stop - i + step - 1 < 2 * step" using False True by simp
      have c: "step \<le> stop - i + step - 1" using True by simp
      have "(stop - i + step - 1) div step = 1"
        using b c "1.prems" by (simp add: div_nat_eqI)
      then show ?thesis using a "1.prems" by simp
    qed
    ultimately show ?thesis by simp
  next
    case False
    then have "py_range i stop step = []" by (subst py_range.simps) simp
    moreover have "(stop - i + step - 1) div step = 0" using False "1.prems" by simp
    ultimately show ?thesis by simp
  qed
qed

lemma py_range_concat:
  "0 < n \<Longrightarrow> concat (map (\<lambda>j. take n (drop j xs)) (py_range i (length xs) n)) = drop i xs"
proof (induction i "length xs" n rule: py_range.induct)
  case (1 i step)
  show ?case
  proof (cases "i < length xs")
    case True
    have "py_range i (length xs) step = i # py_range (i + step) (length xs) step"
      using True "1.prems" by (subst py_range.simps) simp
    moreover have "concat (map (\<lambda>j. take step (drop j xs)) (py_range (i + step) (length xs) step))
        = drop (i + step) xs"
      using "1.hyps" True "1.prems" by simp
    moreover have "take step (drop i xs) @ drop (i + step) xs = drop i xs"
      by (metis add.commute append_take_drop_id drop_drop)
    ultimately show ?thesis by simp
  next
    case False
    then have "py_range i (length xs) step = []" by (subst py_range.simps) simp
    then show ?thesis using False by simp
  qed
qed

lemma chunks_length: "length (chunks flds 49) = (py_len flds + 48) div 49"
  by (simp add: chunks_def py_range_length)

lemma chunks_concat:
  "flds = FList xs \<or> flds = FTuple xs \<Longrightarrow> concat (map list_or_str (chunks flds 49)) = xs"
  using py_range_concat [of 49 xs 0]
  by (auto simp: chunks_def comp_def)

lemma chunks_single: "0 < py_len flds \<Longrightarrow> py_len flds \<le> 49 \<Longrightarrow> chunks flds 49 = [flds]"
proof -
  assume a: "0 < py_len flds" and b: "py_len flds \<le> 49"
  have "py_range 0 (py_len flds) 49 = 0 # py_range 49 (py_len flds) 49"
    using a by (subst py_range.simps) simp
  moreover have "py_range 49 (py_len flds) 49 = []"
    using b by (subst py_range.simps) simp
  moreover have "py_slice flds 0 49 = flds"
    using b by (cases flds) simp_all
  ultimately show ?thesis by (simp add: chunks_def)
qed

lemma chunks_empty: "py_len flds = 0 \<Longrightarrow> chunks flds 49 = []"
  by (simp add: chunks_def py_range.simps)

lemma zip_star_length: "rs \<noteq> [] \<Longrightarrow> length (zip_star rs) = Min (set (map length rs))"
proof (induction rs rule: zip_star.induct)
  case 1
  then show ?case by simp
next
  case (2 r)
  then show ?case by simp
next
  case (3 r r' rs)
  then show ?case by (simp add: min_def)
qed

lemma zip_star_nth:
  "i < length (zip_star rs) \<Longrightarrow> zip_star rs ! i = map (\<lambda>r. r ! i) rs"
proof (induction rs arbitrary: i rule: zip_star.induct)
  case 1
  then show ?case by simp
next
  case (2 r)
  then show ?case by simp
next
  case (3 r r' rs)
  then show ?case by simp
qed

lemma zip_star_same_length:
  "rs \<noteq> [] \<Longrightarrow> \<forall>r \<in> set rs. length r = n \<Longrightarrow> length (zip_star rs) = n"
  by (induction rs rule: zip_star.induct) auto

lemma merge_keys_fold:
  "fst ` set (fold (\<lambda>item acc. AList.update (fst item) (snd item) acc) items acc)
     = fst ` set items \<union> fst ` set acc"
  by (induction items arbitrary: acc) (auto simp: dom_update)

lemma merge_keys: "fst ` set (merge ds) = (\<Union>d \<in> set ds. fst ` set d)"
  by (auto simp: merge_def merge_keys_fold)

lemma those_str_key:
  "those (map str_key kvs) = Some ss \<Longrightarrow> kvs = map (\<lambda>p. (PyStr (fst p), snd p)) ss"
proof (induction kvs arbitrary: ss)
  case Nil
  then show ?case by simp
next
  case (Cons a kvs)
  obtain k x where a: "a = (k, x)" by (cases a)
  show ?case
    using Cons a by (cases k) (auto split: option.splits)
qed

lemma those_float_key:
  "those (map float_key kvs) = Some fs \<Longrightarrow> kvs = map (\<lambda>p. (PyFloat (fst p), snd p)) fs"
proof (induction kvs arbitrary: fs)
  case Nil
  then show ?case by simp
next
  case (Cons a kvs)
  obtain k x where a: "a = (k, x)" by (cases a)
  show ?case
    using Cons a by (cases k) (auto split: option.splits)
qed

lemma py_sorted_result:
  fixes kvs :: "(('f::linorder) pyvalue \<times> 'x) list"
  assumes "py_sorted kvs = Inr xs"
  shows "\<exists>kvs'. mset kvs' = mset kvs \<and> xs = map snd kvs' \<and>
           sorted_wrt (\<lambda>a b. value_le (fst a) (fst b)) kvs'"
proof (cases "length kvs < 2")
  case True
  then have s: "sorted_wrt (\<lambda>a b. value_le (fst a) (fst b)) kvs"
    by (cases kvs) (auto simp: Suc_lessI dest: length_0_conv [THEN iffD1])
  have "xs = map snd kvs" using assms True by (simp add: py_sorted_def)
  then show ?thesis using s by blast
next
  case False
  show ?thesis
  proof (cases "those (map str_key kvs)")
    case (Some ss)
    let ?f = "\<lambda>p :: string \<times> 'x. (PyStr (fst p) :: 'f pyvalue, snd p)"
    have k: "kvs = map ?f ss" using those_str_key [OF Some] .
    have x: "xs = map snd (sort_key fst ss)"
      using assms False Some by (simp add: py_sorted_def)
    have "mset (map ?f (sort_key fst ss)) = mset kvs"
      unfolding k by simp
    moreover have "xs = map snd (map ?f (sort_key fst ss))"
      unfolding x by (simp add: comp_def)
    moreover have "sorted_wrt (\<lambda>a b. value_le (fst a) (fst b)) (map ?f (sort_key fst ss))"
      using sorted_sort_key [of fst ss] by (simp add: sorted_wrt_map sorted_map)
    ultimately show ?thesis by blast
  next
    case None
    then obtain fs where Some: "those (map float_key kvs) = Some fs"
      using assms False by (auto simp: py_sorted_def split: option.splits)
    let ?f = "\<lambda>p :: 'f \<times> 'x. (PyFloat (fst p) :: 'f pyvalue, snd p)"
    have k: "kvs = map ?f fs" using those_float_key [OF Some] .
    have x: "xs = map snd (sort_key fst fs)"
      using assms False None Some by (simp add: py_sorted_def)
    have "mset (map ?f (sort_key fst fs)) = mset kvs"
      unfolding k by simp
    moreover have "xs = map snd (map ?f (sort_key fst fs))"
      unfolding x by (simp add: comp_def)
    moreover have "sorted_wrt (\<lambda>a b. value_le (fst a) (fst b)) (map ?f (sort_key fst fs))"
      using sorted_sort_key [of fst fs] by (simp add: sorted_wrt_map sorted_map)
    ultimately show ?thesis by blast
  qed
qed

lemma geoid_keys_keep:
  "geoid_keys False rs = Inr kvs \<Longrightarrow>
     kvs = map (\<lambda>r. (the (map_of r ''GEO_ID''), r)) rs \<and>
     (\<forall>r \<in> set rs. map_of r ''GEO_ID'' \<noteq> None)"
proof (induction rs arbitrary: kvs)
  case Nil
  then show ?case by simp
next
  case (Cons r rs)
  then show ?case by (auto split: option.splits sum.splits)
qed

lemma sorted_by_geoid_keep:
  fixes rs :: "('f::linorder) row list"
  assumes "sorted_by_geoid False rs = Inr rows"
  shows "mset rows = mset rs \<and> geoid_sorted rows \<and>
         (\<forall>r \<in> set rows. ''GEO_ID'' \<in> fst ` set r)"
proof -
  obtain kvs where g: "geoid_keys False rs = Inr kvs" and p: "py_sorted kvs = Inr rows"
    using assms by (auto simp: sorted_by_geoid_def split: sum.splits)
  let ?k = "\<lambda>r :: 'f row. (the (map_of r ''GEO_ID''), r)"
  have kv: "kvs = map ?k rs" and has: "\<forall>r \<in> set rs. map_of r ''GEO_ID'' \<noteq> None"
    using geoid_keys_keep [OF g] by simp_all
  obtain kvs' where m: "mset kvs' = mset kvs" and r: "rows = map snd kvs'"
    and s: "sorted_wrt (\<lambda>a b. value_le (fst a) (fst b)) kvs'"
    using py_sorted_result [OF p] by blast
  have "mset rows = image_mset snd (mset kvs)"
    unfolding r using m by (metis mset_map)
  then have ms: "mset rows = mset rs"
    unfolding kv by (simp add: image_mset.compositionality comp_def)
  have el: "\<forall>a \<in> set kvs'. map_of (snd a) ''GEO_ID'' = Some (fst a)"
  proof
    fix a assume "a \<in> set kvs'"
    then have "a \<in> set kvs" using m by (metis mset_eq_setD)
    then obtain r0 where "r0 \<in> set rs" "a = ?k r0" unfolding kv by auto
    then show "map_of (snd a) ''GEO_ID'' = Some (fst a)" using has by auto
  qed
  have "sorted_wrt (\<lambda>a b. geoid_le (snd a) (snd b)) kvs'"
    by (rule sorted_wrt_mono_rel [OF _ s]) (use el in \<open>auto simp: geoid_le_def\<close>)
  then have gs: "geoid_sorted rows"
    unfolding r geoid_sorted_def by (simp add: sorted_wrt_map)
  have "\<forall>r \<in> set rows. ''GEO_ID'' \<in> fst ` set r"
  proof
    fix r0 assume "r0 \<in> set rows"
    then have "r0 \<in> set rs" using ms by (metis mset_eq_setD)
    then have "map_of r0 ''GEO_ID'' \<noteq> None" using has by simp
    then show "''GEO_ID'' \<in> fst ` set r0" by (simp add: map_of_eq_None_iff)
  qed
  then show ?thesis using ms gs by simp
qed

section \<open>The calls of a chunked request\<close>

lemma field_type_query_log: "query_log (snd (field_type tr c f y)) = query_log c"
  by (auto simp: field_type_def session_get_def Let_def
      split: option.splits payload.splits prod.splits)

lemma field_types_query_log: "query_log (snd (field_types tr c hs y)) = query_log c"
proof (induction hs arbitrary: c)
  case Nil
  then show ?case by simp
next
  case (Cons h hs)
  obtain r c1 where f: "field_type tr c h y = (r, c1)" by (cases "field_type tr c h y")
  have c1: "query_log c1 = query_log c"
    using field_type_query_log [of tr c h y] f by simp
  show ?case
  proof (cases r)
    case (Inl e)
    then show ?thesis using f c1 by simp
  next
    case (Inr t)
    obtain r2 c2 where g: "field_types tr c1 hs y = (r2, c2)" by (cases "field_types tr c1 hs y")
    have "query_log c2 = query_log c1"
      using Cons.IH [of c1] g by simp
    then show ?thesis using f Inr g c1 by (cases r2) auto
  qed
qed

lemma handle_response_query_log:
  "query_log (snd (handle_response pf tr c1 resp y fs sbg)) = query_log c1"
proof -
  have ft: "field_types tr c1 hs y = (r, c2) \<Longrightarrow> query_log c2 = query_log c1" for hs r c2
    using field_types_query_log [of tr c1 hs y] by simp
  show ?thesis
    by (auto simp: handle_response_def dest!: ft
        split: option.splits sum.splits prod.splits if_splits)
qed

lemma query_body_query_log:
  "query_log (snd (query_body pf tr c flds geo year sbg)) = query_log c"
  by (simp add: query_body_def Let_def session_get_def handle_response_query_log
      split: sum.splits)

lemma retry_loop_preserves:
  assumes "\<And>s. g (snd (func s)) = g s"
  shows "g (snd (retry_loop n func s)) = g s"
proof (induction n arbitrary: s)
  case 0
  then show ?case using assms by simp
next
  case (Suc n)
  obtain r s' where f: "func s = (r, s')" by (cases "func s")
  have "g s' = g s" using assms [of s] f by simp
  then show ?case using f Suc.IH [of s'] by (cases r) auto
qed

lemma retry_loop_result:
  assumes "\<And>s r s'. func s = (Inr r, s') \<Longrightarrow> P r"
    and "retry_loop n func s = (Inr r, s')"
  shows "P r"
  using assms(2)
proof (induction n arbitrary: s)
  case 0
  then show ?case using assms(1) by simp
next
  case (Suc n)
  obtain r0 s0 where f: "func s = (r0, s0)" by (cases "func s")
  show ?case
  proof (cases r0)
    case (Inl e)
    then show ?thesis using Suc f by (auto split: if_splits)
  next
    case (Inr a)
    then show ?thesis using Suc.prems f assms(1) [of s a s0] by simp
  qed
qed

lemma query_logged:
  "query_log (snd (query pf tr c flds geo year sbg)) = query_log c @ [(flds, sbg)]"
proof -
  let ?g = "\<lambda>s :: client \<times> fieldseq. query_log (fst s)"
  have "?g (snd (query_attempt pf tr geo year sbg s)) = ?g s" for s
    by (simp add: query_attempt_def case_prod_beta query_body_query_log)
  then have "?g (snd (retry_loop n (query_attempt pf tr geo year sbg) s)) = ?g s" for n s
    by (rule retry_loop_preserves)
  then show ?thesis
    by (simp add: query_def retry_on_transient_error_def case_prod_beta)
qed

lemma query_body_sorted:
  fixes rows :: "('f::linorder) row list"
  assumes "query_body pf tr c flds geo year True = (Inr rows, c')"
  shows "geoid_sorted rows \<and> (\<forall>r \<in> set rows. ''GEO_ID'' \<in> fst ` set r)"
proof -
  have g: "''GEO_ID'' \<in> set (request_fields flds True)"
    by (simp add: request_fields_def)
  have e: "geoid_sorted ([] :: 'f row list)" by (simp add: geoid_sorted_def)
  have k: "sorted_by_geoid False rs = Inr rows \<Longrightarrow>
      geoid_sorted rows \<and> (\<forall>r \<in> set rows. ''GEO_ID'' \<in> fst ` set r)" for rs
    using sorted_by_geoid_keep [of rs rows] by simp
  show ?thesis
    using assms g e
    by (auto simp: query_body_def Let_def session_get_def handle_response_def dest!: k
        split: sum.splits option.splits prod.splits if_splits)
qed

lemma query_sorted:
  fixes rows :: "('f::linorder) row list"
  assumes "query pf tr c flds geo year True = (Inr rows, c')"
  shows "geoid_sorted rows \<and> (\<forall>r \<in> set rows. ''GEO_ID'' \<in> fst ` set r)"
proof -
  let ?f = "query_attempt pf tr geo year True"
  let ?P = "\<lambda>rows :: 'f row list. geoid_sorted rows \<and> (\<forall>r \<in> set rows. ''GEO_ID'' \<in> fst ` set r)"
  have a: "?f s = (Inr r, s') \<Longrightarrow> ?P r" for s r s'
    using query_body_sorted [of pf tr "fst s" "snd s" geo year r "fst s'"]
    by (auto simp: query_attempt_def split: prod.splits)
  obtain s' where "retry_loop (nat (max (retries c - 1) 0)) ?f
      (c\<lparr>query_log := query_log c @ [(flds, True)]\<rparr>, flds) = (Inr rows, s')"
    using assms by (auto simp: query_def retry_on_transient_error_def split: prod.splits)
  then show ?thesis
    using retry_loop_result [of ?f ?P] a by blast
qed

lemma query_all_log:
  "\<exists>k \<le> length chs. query_log (snd (query_all pf tr c chs geo year sbg)) =
      query_log c @ map (\<lambda>ch. (ch, sbg)) (take k chs)"
proof (induction chs arbitrary: c)
  case Nil
  then show ?case by simp
next
  case (Cons ch chs)
  obtain r c1 where q: "query pf tr c ch geo year sbg = (r, c1)"
    by (cases "query pf tr c ch geo year sbg")
  have l1: "query_log c1 = query_log c @ [(ch, sbg)]"
    using query_logged [of pf tr c ch geo year sbg] q by simp
  show ?case
  proof (cases r)
    case (Inl e)
    have "query_log (snd (query_all pf tr c (ch # chs) geo year sbg)) =
        query_log c @ map (\<lambda>ch. (ch, sbg)) (take 1 (ch # chs))"
      using q Inl l1 by simp
    then show ?thesis by (intro exI [of _ 1]) simp
  next
    case (Inr a)
    obtain k where k: "k \<le> length chs"
      and lk: "query_log (snd (query_all pf tr c1 chs geo year sbg)) =
        query_log c1 @ map (\<lambda>ch. (ch, sbg)) (take k chs)"
      using Cons.IH [of c1] by blast
    have "query_log (snd (query_all pf tr c (ch # chs) geo year sbg)) =
        query_log (snd (query_all pf tr c1 chs geo year sbg))"
      using q Inr by (auto split: prod.splits sum.splits)
    then have "query_log (snd (query_all pf tr c (ch # chs) geo year sbg)) =
        query_log c @ map (\<lambda>ch. (ch, sbg)) (take (Suc k) (ch # chs))"
      using lk l1 by simp
    then show ?thesis using k by (intro exI [of _ "Suc k"]) simp
  qed
qed

lemma query_all_success:
  "query_all pf tr c chs geo year sbg = (Inr results, c') \<Longrightarrow>
     length results = length chs \<and>
     query_log c' = query_log c @ map (\<lambda>ch. (ch, sbg)) chs"
proof (induction chs arbitrary: c results)
  case Nil
  then show ?case by simp
next
  case (Cons ch chs)
  obtain r c1 where q: "query pf tr c ch geo year sbg = (Inr r, c1)"
    using Cons.prems by (auto split: prod.splits sum.splits)
  obtain rs where a: "query_all pf tr c1 chs geo year sbg = (Inr rs, c')"
    and res: "results = r # rs"
    using Cons.prems q by (auto split: prod.splits sum.splits)
  have l1: "query_log c1 = query_log c @ [(ch, sbg)]"
    using query_logged [of pf tr c ch geo year sbg] q by simp
  show ?case
    using Cons.IH [OF a] res l1 by simp
qed

lemma query_all_results:
  assumes "\<And>c ch r c'. query pf tr c ch geo year sbg = (Inr r, c') \<Longrightarrow> P r"
  shows "query_all pf tr c chs geo year sbg = (Inr results, c') \<Longrightarrow> \<forall>r \<in> set results. P r"
proof (induction chs arbitrary: c results)
  case Nil
  then show ?case by simp
next
  case (Cons ch chs)
  obtain r c1 where q: "query pf tr c ch geo year sbg = (Inr r, c1)"
    using Cons.prems by (auto split: prod.splits sum.splits)
  obtain rs where a: "query_all pf tr c1 chs geo year sbg = (Inr rs, c')"
    and res: "results = r # rs"
    using Cons.prems q by (auto split: prod.splits sum.splits)
  show ?case
    using Cons.IH [OF a] res assms [OF q] by simp
qed

lemma get_unfold:
  "query_all pf tr c (chunks flds 49) geo year (sort_by_geoid flds year) = (Inr results, c')
   \<Longrightarrow> get pf tr c flds geo year = (Inr (map merge (zip_star results)), c')"
  by (simp add: get_def)

lemma get_success:
  "get pf tr c flds geo year = (Inr merged, c') \<Longrightarrow>
   \<exists>results. query_all pf tr c (chunks flds 49) geo year (sort_by_geoid flds year)
                = (Inr results, c') \<and> merged = map merge (zip_star results)"
  by (auto simp: get_def split: prod.splits sum.splits)

section \<open>Chunked requests\<close>

lemma get_query_log:
  "query_log (snd (get pf tr c flds geo year)) =
     query_log (snd (query_all pf tr c (chunks flds 49) geo year (sort_by_geoid flds year)))"
  by (auto simp: get_def split: prod.splits sum.splits)

lemma query_all_failure:
  "query_all pf tr c chs geo year sbg = (Inl e, c') \<Longrightarrow>
   \<exists>k < length chs. \<exists>results c1.
     query_all pf tr c (take k chs) geo year sbg = (Inr results, c1) \<and>
     query pf tr c1 (chs ! k) geo year sbg = (Inl e, c') \<and>
     query_log c' = query_log c @ map (\<lambda>ch. (ch, sbg)) (take (Suc k) chs)"
proof (induction chs arbitrary: c)
  case Nil
  then show ?case by simp
next
  case (Cons ch chs)
  obtain r c1 where q: "query pf tr c ch geo year sbg = (r, c1)"
    by (cases "query pf tr c ch geo year sbg")
  have l1: "query_log c1 = query_log c @ [(ch, sbg)]"
    using query_logged [of pf tr c ch geo year sbg] q by simp
  show ?case
  proof (cases r)
    case (Inl e1)
    then have "e1 = e" "c1 = c'" using Cons.prems q by simp_all
    then have "query_all pf tr c (take 0 (ch # chs)) geo year sbg = (Inr [], c) \<and>
        query pf tr c ((ch # chs) ! 0) geo year sbg = (Inl e, c') \<and>
        query_log c' = query_log c @ map (\<lambda>ch. (ch, sbg)) (take (Suc 0) (ch # chs))"
      using q Inl l1 by simp
    then show ?thesis by (intro exI [of _ 0]) blast
  next
    case (Inr rows)
    then have a: "query_all pf tr c1 chs geo year sbg = (Inl e, c')"
      using Cons.prems q by (auto split: prod.splits sum.splits)
    obtain k results c2 where k: "k < length chs"
      and t: "query_all pf tr c1 (take k chs) geo year sbg = (Inr results, c2)"
      and f: "query pf tr c2 (chs ! k) geo year sbg = (Inl e, c')"
      and l: "query_log c' = query_log c1 @ map (\<lambda>ch. (ch, sbg)) (take (Suc k) chs)"
      using Cons.IH [OF a] by blast
    have "query_all pf tr c (take (Suc k) (ch # chs)) geo year sbg = (Inr (rows # results), c2) \<and>
        query pf tr c2 ((ch # chs) ! Suc k) geo year sbg = (Inl e, c') \<and>
        query_log c' = query_log c @ map (\<lambda>ch. (ch, sbg)) (take (Suc (Suc k)) (ch # chs))"
      using q Inr t f l l1 by simp
    then show ?thesis using k by (intro exI [of _ "Suc k"]) auto
  qed
qed

lemma query_all_take:
  "query_all pf tr c chs geo year sbg = (Inr results, c') \<Longrightarrow> i < length chs \<Longrightarrow>
   \<exists>ci ci'. query_all pf tr c (take i chs) geo year sbg = (Inr (take i results), ci) \<and>
     query pf tr ci (chs ! i) geo year sbg = (Inr (results ! i), ci')"
proof (induction chs arbitrary: c results i)
  case Nil
  then show ?case by simp
next
  case (Cons ch chs)
  obtain r c1 where q: "query pf tr c ch geo year sbg = (Inr r, c1)"
    using Cons.prems(1) by (auto split: prod.splits sum.splits)
  obtain rs where a: "query_all pf tr c1 chs geo year sbg = (Inr rs, c')"
    and res: "results = r # rs"
    using Cons.prems(1) q by (auto split: prod.splits sum.splits)
  show ?case
  proof (cases i)
    case 0
    then show ?thesis using q res by simp
  next
    case (Suc j)
    then have "j < length chs" using Cons.prems(2) by simp
    then obtain ci ci' where "query_all pf tr c1 (take j chs) geo year sbg = (Inr (take j rs), ci)"
      and "query pf tr ci (chs ! j) geo year sbg = (Inr (rs ! j), ci')"
      using Cons.IH [OF a] by blast
    then show ?thesis using q res Suc by simp
  qed
qed

lemma retry_loop_unfold:
  "retry_loop n func s =
     (case func s of
        (Inr r, s') \<Rightarrow> (Inr r, s')
      | (Inl e, s') \<Rightarrow>
          (if n = 0 \<or> \<not> is_transient e then (Inl e, s') else retry_loop (n - 1) func s'))"
  by (cases n) (auto split: prod.splits sum.splits)

lemma example_fields_length: "length (example_fields n) = n"
  by (simp add: example_fields_def)

lemma geoid_not_example: "''GEO_ID'' \<notin> set (example_fields n)"
  by (auto simp: example_fields_def)

lemma chunks_fifty:
  "length xs = 50 \<Longrightarrow> chunks (FList xs) 49 = [FList (take 49 xs), FList (drop 49 xs)]"
proof -
  assume l: "length xs = 50"
  have "py_range 0 50 49 = [0, 49]"
    by (simp add: py_range.simps)
  then show ?thesis using l by (simp add: chunks_def)
qed

lemma query_no_content:
  assumes "map_of geo ''for'' = Some f" and "status_code resp = 204"
  shows "\<exists>c'. query pf (constant_server resp) c flds geo year sbg = (Inr [], c')"
proof -
  let ?cl = "c\<lparr>query_log := query_log c @ [(flds, sbg)]\<rparr>"
  obtain params where bp: "build_params ?cl (request_fields flds sbg) geo = Inr params"
    using assms(1) by (simp add: build_params_def)
  have "\<exists>c1. query_body pf (constant_server resp) ?cl flds geo year sbg = (Inr [], c1)"
    unfolding query_body_sent [OF bp] using assms(2)
    by (simp add: handle_response_def constant_server_def)
  then show ?thesis using query_first_success by blast
qed

lemma query_all_no_content:
  assumes "map_of geo ''for'' = Some f" and "status_code resp = 204"
  shows "\<exists>c'. query_all pf (constant_server resp) c chs geo year sbg =
           (Inr (replicate (length chs) []), c')"
proof (induction chs arbitrary: c)
  case Nil
  then show ?case by simp
next
  case (Cons ch chs)
  obtain c1 where q: "query pf (constant_server resp) c ch geo year sbg = (Inr [], c1)"
    using query_no_content [OF assms] by blast
  obtain c2 where "query_all pf (constant_server resp) c1 chs geo year sbg =
      (Inr (replicate (length chs) []), c2)"
    using Cons.IH by blast
  then show ?case using q by simp
qed

lemma get_no_content_log:
  assumes "map_of geo ''for'' = Some f" and "status_code resp = 204"
  shows "query_log (snd (get pf (constant_server resp) c flds geo year)) =
     query_log c @ map (\<lambda>ch. (ch, sort_by_geoid flds year)) (chunks flds 49)"
proof -
  obtain c' where "query_all pf (constant_server resp) c (chunks flds 49) geo year
      (sort_by_geoid flds year) = (Inr (replicate (length (chunks flds 49)) []), c')"
    using query_all_no_content [OF assms] by blast
  then show ?thesis
    unfolding get_query_log using query_all_success by fastforce
qed

lemmas run_defs = get_def sort_by_geoid_def query_def retry_on_transient_error_def
  query_attempt_def query_body_def request_fields_def build_params_def session_get_def
  scripted_server_def handle_response_def field_type_def lru_get_def lru_put_def
  lru_maxsize_def types_def cast_item_def sorted_by_geoid_def py_sorted_def Let_def
  not_found_def no_content_def first_table_def second_table_def short_table_def
  merge_def

lemma two_tables_run:
  "fst (get example_float (scripted_server [first_table, second_table])
          (acs5_client ''k'' None 3) (FList (example_fields 50)) [(''for'', ''state:*'')] None) =
     Inr [[(''B01001_1E'', PyStr ''200''), (''GEO_ID'', PyStr ''0400000US06''),
           (''state'', PyStr ''06''), (''B01001_50E'', PyStr ''7'')],
          [(''B01001_1E'', PyStr ''100''), (''GEO_ID'', PyStr ''0400000US17''),
           (''state'', PyStr ''17''), (''B01001_50E'', PyStr ''9'')]]"
  by (simp add: run_defs chunks_fifty example_fields_length retry_loop_unfold acs5_client_def)

lemma short_table_run:
  "fst (query_all example_float (scripted_server [first_table, short_table])
          (acs5_client ''k'' None 3) (chunks (FList (example_fields 50)) 49)
          [(''for'', ''state:*'')] None (sort_by_geoid (FList (example_fields 50)) None)) =
     Inr [[[(''B01001_1E'', PyStr ''200''), (''GEO_ID'', PyStr ''0400000US06''),
            (''state'', PyStr ''06'')],
           [(''B01001_1E'', PyStr ''100''), (''GEO_ID'', PyStr ''0400000US17''),
            (''state'', PyStr ''17'')]],
          [[(''B01001_50E'', PyStr ''7''), (''GEO_ID'', PyStr ''0400000US06''),
            (''state'', PyStr ''06'')]]]"
  by (simp add: run_defs chunks_fifty example_fields_length retry_loop_unfold acs5_client_def)

text \<open>
  Claim C1, as stated, fails for the empty field list: its length is at most 49, and
  \<open>get\<close> issues no query at all and returns the empty result.
\<close>

theorem empty_field_list_counterexample:
  "py_len (FList []) \<le> 49 \<and>
   get example_float echo_server (acs5_client ''k'' None 3) (FList [])
       [(''for'', ''state:*'')] None = (Inr [], acs5_client ''k'' None 3) \<and>
   query_log (acs5_client ''k'' None 3) = []"
  by (simp add: get_def chunks_empty acs5_client_def)

text \<open>
  Claim C1, amended. For a non-empty field list of at most 49 fields \<open>get\<close> issues
  exactly one query, for the whole list and without sorting; for the empty list it
  issues none and returns the empty result. In general the field list is cut into
  \<open>ceil(n / 49)\<close> chunks whose field lists, concatenated in order, are the original
  list, and \<open>get\<close> issues the queries of a prefix of the chunks, in order. When \<open>get\<close>
  returns, it has issued the query of every chunk, so \<open>ceil(n / 49)\<close> queries, the
  \<open>i\<close>-th result being what the query of the \<open>i\<close>-th chunk returned; the merged result
  is the merge of the results by position, and has \<open>n\<close> rows when every chunk returned
  \<open>n\<close> rows. When \<open>get\<close> raises, the queries stopped at the first chunk whose query
  raised, and that error is the one raised.
\<close>

theorem get_chunk_queries:
  "(0 < py_len flds \<and> py_len flds \<le> 49 \<longrightarrow>
      query_log (snd (get pf tr c flds geo year)) = query_log c @ [(flds, False)]) \<and>
   (py_len flds = 0 \<longrightarrow> get pf tr c flds geo year = (Inr [], c)) \<and>
   length (chunks flds 49) = (py_len flds + 48) div 49 \<and>
   (flds = FList xs \<or> flds = FTuple xs \<longrightarrow>
      concat (map list_or_str (chunks flds 49)) = xs) \<and>
   (\<exists>k \<le> length (chunks flds 49).
      query_log (snd (get pf tr c flds geo year)) =
        query_log c @ map (\<lambda>ch. (ch, sort_by_geoid flds year)) (take k (chunks flds 49))) \<and>
   (get pf tr c flds geo year = (Inr merged, c') \<longrightarrow>
      query_log c' =
        query_log c @ map (\<lambda>ch. (ch, sort_by_geoid flds year)) (chunks flds 49) \<and>
      (\<exists>results.
         query_all pf tr c (chunks flds 49) geo year (sort_by_geoid flds year)
           = (Inr results, c') \<and>
         length results = length (chunks flds 49) \<and>
         merged = map merge (zip_star results) \<and>
         (\<forall>i < length (chunks flds 49). \<exists>ci ci'.
            query_all pf tr c (take i (chunks flds 49)) geo year (sort_by_geoid flds year)
              = (Inr (take i results), ci) \<and>
            query pf tr ci (chunks flds 49 ! i) geo year (sort_by_geoid flds year)
              = (Inr (results ! i), ci')) \<and>
         (\<forall>n. results \<noteq> [] \<and> (\<forall>r \<in> set results. length r = n) \<longrightarrow> length merged = n))) \<and>
   (get pf tr c flds geo year = (Inl e, c') \<longrightarrow>
      (\<exists>k < length (chunks flds 49). \<exists>results c1.
         query_all pf tr c (take k (chunks flds 49)) geo year (sort_by_geoid flds year)
           = (Inr results, c1) \<and>
         query pf tr c1 (chunks flds 49 ! k) geo year (sort_by_geoid flds year) = (Inl e, c') \<and>
         query_log c' =
           query_log c @
             map (\<lambda>ch. (ch, sort_by_geoid flds year)) (take (Suc k) (chunks flds 49))))"
proof -
  let ?sbg = "sort_by_geoid flds year"
  let ?chs = "chunks flds 49"
  have log: "query_log (snd (get pf tr c flds geo year)) =
      query_log (snd (query_all pf tr c ?chs geo year ?sbg))"
    by (rule get_query_log)
  have one: "0 < py_len flds \<and> py_len flds \<le> 49 \<longrightarrow>
      query_log (snd (get pf tr c flds geo year)) = query_log c @ [(flds, False)]"
  proof (intro impI, elim conjE)
    assume that: "0 < py_len flds" "py_len flds \<le> 49"
    have ch: "?chs = [flds]" using that by (rule chunks_single)
    have sb: "?sbg = False" using that by (simp add: sort_by_geoid_def)
    have "query_log (snd (query_all pf tr c [flds] geo year False)) =
        query_log (snd (query pf tr c flds geo year False))"
      by (auto split: prod.splits sum.splits)
    then show "query_log (snd (get pf tr c flds geo year)) = query_log c @ [(flds, False)]"
      unfolding log ch sb by (simp add: query_logged)
  qed
  have none: "py_len flds = 0 \<longrightarrow> get pf tr c flds geo year = (Inr [], c)"
  proof
    assume "py_len flds = 0"
    then show "get pf tr c flds geo year = (Inr [], c)"
      using chunks_empty by (simp add: get_def)
  qed
  have len: "length ?chs = (py_len flds + 48) div 49"
    by (rule chunks_length)
  have cat: "flds = FList xs \<or> flds = FTuple xs \<longrightarrow> concat (map list_or_str ?chs) = xs"
    using chunks_concat [of flds xs] by blast
  have pre: "\<exists>k \<le> length ?chs. query_log (snd (get pf tr c flds geo year)) =
        query_log c @ map (\<lambda>ch. (ch, ?sbg)) (take k ?chs)"
    unfolding log by (rule query_all_log)
  have succ: "get pf tr c flds geo year = (Inr merged, c') \<longrightarrow>
      query_log c' = query_log c @ map (\<lambda>ch. (ch, ?sbg)) ?chs \<and>
      (\<exists>results. query_all pf tr c ?chs geo year ?sbg = (Inr results, c') \<and>
         length results = length ?chs \<and> merged = map merge (zip_star results) \<and>
         (\<forall>i < length ?chs. \<exists>ci ci'.
            query_all pf tr c (take i ?chs) geo year ?sbg = (Inr (take i results), ci) \<and>
            query pf tr ci (?chs ! i) geo year ?sbg = (Inr (results ! i), ci')) \<and>
         (\<forall>n. results \<noteq> [] \<and> (\<forall>r \<in> set results. length r = n) \<longrightarrow> length merged = n))"
  proof
    assume g: "get pf tr c flds geo year = (Inr merged, c')"
    obtain results where q: "query_all pf tr c ?chs geo year ?sbg = (Inr results, c')"
      and m: "merged = map merge (zip_star results)"
      using get_success [OF g] by blast
    have n: "\<forall>n. results \<noteq> [] \<and> (\<forall>r \<in> set results. length r = n) \<longrightarrow> length merged = n"
      unfolding m using zip_star_same_length by auto
    have t: "\<forall>i < length ?chs. \<exists>ci ci'.
            query_all pf tr c (take i ?chs) geo year ?sbg = (Inr (take i results), ci) \<and>
            query pf tr ci (?chs ! i) geo year ?sbg = (Inr (results ! i), ci')"
      using query_all_take [OF q] by blast
    show "query_log c' = query_log c @ map (\<lambda>ch. (ch, ?sbg)) ?chs \<and>
      (\<exists>results. query_all pf tr c ?chs geo year ?sbg = (Inr results, c') \<and>
         length results = length ?chs \<and> merged = map merge (zip_star results) \<and>
         (\<forall>i < length ?chs. \<exists>ci ci'.
            query_all pf tr c (take i ?chs) geo year ?sbg = (Inr (take i results), ci) \<and>
            query pf tr ci (?chs ! i) geo year ?sbg = (Inr (results ! i), ci')) \<and>
         (\<forall>n. results \<noteq> [] \<and> (\<forall>r \<in> set results. length r = n) \<longrightarrow> length merged = n))"
      using query_all_success [OF q] q m n t by blast
  qed
  have fail: "get pf tr c flds geo year = (Inl e, c') \<longrightarrow>
      (\<exists>k < length ?chs. \<exists>results c1.
         query_all pf tr c (take k ?chs) geo year ?sbg = (Inr results, c1) \<and>
         query pf tr c1 (?chs ! k) geo year ?sbg = (Inl e, c') \<and>
         query_log c' = query_log c @ map (\<lambda>ch. (ch, ?sbg)) (take (Suc k) ?chs))"
  proof
    assume g: "get pf tr c flds geo year = (Inl e, c')"
    then have "query_all pf tr c ?chs geo year ?sbg = (Inl e, c')"
      by (auto simp: get_def split: prod.splits sum.splits)
    then show "\<exists>k < length ?chs. \<exists>results c1.
         query_all pf tr c (take k ?chs) geo year ?sbg = (Inr results, c1) \<and>
         query pf tr c1 (?chs ! k) geo year ?sbg = (Inl e, c') \<and>
         query_log c' = query_log c @ map (\<lambda>ch. (ch, ?sbg)) (take (Suc k) ?chs)"
      by (rule query_all_failure)
  qed
  show ?thesis
    by (intro conjI one none len cat pre succ fail)
qed

theorem get_chunk_queries_witness:
  "query_log (snd (get example_float echo_server (acs5_client ''k'' None 3)
       (FList [''NAME'', ''B01001_1E'']) [(''for'', ''state:*'')] None)) =
     [(FList [''NAME'', ''B01001_1E''], False)] \<and>
   length (chunks (FList (example_fields 50)) 49) = 2 \<and>
   concat (map list_or_str (chunks (FList (example_fields 50)) 49)) = example_fields 50 \<and>
   fst (get example_float (scripted_server [first_table, second_table])
          (acs5_client ''k'' None 3) (FList (example_fields 50)) [(''for'', ''state:*'')] None) =
     Inr [[(''B01001_1E'', PyStr ''200''), (''GEO_ID'', PyStr ''0400000US06''),
           (''state'', PyStr ''06''), (''B01001_50E'', PyStr ''7'')],
          [(''B01001_1E'', PyStr ''100''), (''GEO_ID'', PyStr ''0400000US17''),
           (''state'', PyStr ''17''), (''B01001_50E'', PyStr ''9'')]] \<and>
   query_log (snd (get example_float (scripted_server [first_table, second_table])
          (acs5_client ''k'' None 3) (FList (example_fields 50)) [(''for'', ''state:*'')] None)) =
     [(FList (take 49 (example_fields 50)), True), (FList (drop 49 (example_fields 50)), True)]"
proof -
  let ?c = "acs5_client ''k'' None 3"
  let ?geo = "[(''for'', ''state:*'')]"
  let ?g = "get example_float (scripted_server [first_table, second_table]) ?c
      (FList (example_fields 50)) ?geo None"
  let ?m = "[[(''B01001_1E'', PyStr ''200''), (''GEO_ID'', PyStr ''0400000US06''),
           (''state'', PyStr ''06''), (''B01001_50E'', PyStr ''7'')],
          [(''B01001_1E'', PyStr ''100''), (''GEO_ID'', PyStr ''0400000US17''),
           (''state'', PyStr ''17''), (''B01001_50E'', PyStr ''9'')]] :: int row list"
  have ql: "query_log ?c = []" by (simp add: acs5_client_def)
  note small = get_chunk_queries [where flds = "FList [''NAME'', ''B01001_1E'']"
      and pf = example_float and tr = echo_server and c = ?c and geo = ?geo and year = None]
  have a: "query_log (snd (get example_float echo_server ?c
       (FList [''NAME'', ''B01001_1E'']) ?geo None)) = [(FList [''NAME'', ''B01001_1E''], False)]"
    using small [THEN conjunct1] ql by simp
  note big = get_chunk_queries [where flds = "FList (example_fields 50)"
      and xs = "example_fields 50" and pf = example_float
      and tr = "scripted_server [first_table, second_table]" and c = ?c and geo = ?geo
      and year = None and merged = ?m and c' = "snd ?g"]
  have b: "length (chunks (FList (example_fields 50)) 49) = 2"
    using big [THEN conjunct2, THEN conjunct2, THEN conjunct1]
    by (simp add: example_fields_length)
  have d: "concat (map list_or_str (chunks (FList (example_fields 50)) 49)) = example_fields 50"
    using big [THEN conjunct2, THEN conjunct2, THEN conjunct2, THEN conjunct1] by simp
  have run: "?g = (Inr ?m, snd ?g)"
    using two_tables_run by (metis prod.collapse)
  have e: "query_log (snd ?g) =
      query_log ?c @ map (\<lambda>ch. (ch, sort_by_geoid (FList (example_fields 50)) None))
        (chunks (FList (example_fields 50)) 49)"
    using big [THEN conjunct2, THEN conjunct2, THEN conjunct2, THEN conjunct2, THEN conjunct2,
        THEN conjunct1, THEN mp, OF run] by blast
  have f: "query_log (snd ?g) =
     [(FList (take 49 (example_fields 50)), True), (FList (drop 49 (example_fields 50)), True)]"
    unfolding e using ql
    by (simp add: chunks_fifty example_fields_length sort_by_geoid_def)
  show ?thesis
    using a b d two_tables_run f by simp
qed

text \<open>
  Claim C10. When the queries of all chunks return, whatever their row counts, \<open>get\<close>
  returns without error. The merged result has as many rows as the shortest chunk
  result, and its row \<open>i\<close> is the merge of the rows \<open>i\<close> of the chunk results (which
  \<open>query\<close> has sorted when sorting applies), so the rows of a chunk result beyond the
  shortest count are dropped.
\<close>

theorem merge_shortest_chunk:
  "query_all pf tr c (chunks flds 49) geo year (sort_by_geoid flds year) = (Inr results, c')
   \<longrightarrow>
   get pf tr c flds geo year = (Inr (map merge (zip_star results)), c') \<and>
   (results \<noteq> [] \<longrightarrow>
      length (map merge (zip_star results)) = Min (set (map length results))) \<and>
   (\<forall>i < length (map merge (zip_star results)).
      map merge (zip_star results) ! i = merge (map (\<lambda>r. r ! i) results))"
  using get_unfold [of pf tr c flds geo year results c'] zip_star_length [of results]
    zip_star_nth [of _ results]
  by auto

theorem merge_shortest_chunk_witness:
  "fst (query_all example_float (scripted_server [first_table, short_table])
          (acs5_client ''k'' None 3) (chunks (FList (example_fields 50)) 49)
          [(''for'', ''state:*'')] None (sort_by_geoid (FList (example_fields 50)) None)) =
     Inr [[[(''B01001_1E'', PyStr ''200''), (''GEO_ID'', PyStr ''0400000US06''),
            (''state'', PyStr ''06'')],
           [(''B01001_1E'', PyStr ''100''), (''GEO_ID'', PyStr ''0400000US17''),
            (''state'', PyStr ''17'')]],
          [[(''B01001_50E'', PyStr ''7''), (''GEO_ID'', PyStr ''0400000US06''),
            (''state'', PyStr ''06'')]]] \<and>
   fst (get example_float (scripted_server [first_table, short_table])
          (acs5_client ''k'' None 3) (FList (example_fields 50)) [(''for'', ''state:*'')] None) =
     Inr [[(''B01001_1E'', PyStr ''200''), (''GEO_ID'', PyStr ''0400000US06''),
           (''state'', PyStr ''06''), (''B01001_50E'', PyStr ''7'')]]"
proof -
  let ?c = "acs5_client ''k'' None 3"
  let ?geo = "[(''for'', ''state:*'')]"
  let ?q = "query_all example_float (scripted_server [first_table, short_table]) ?c
      (chunks (FList (example_fields 50)) 49) ?geo None
      (sort_by_geoid (FList (example_fields 50)) None)"
  let ?rs = "[[[(''B01001_1E'', PyStr ''200''), (''GEO_ID'', PyStr ''0400000US06''),
            (''state'', PyStr ''06'')],
           [(''B01001_1E'', PyStr ''100''), (''GEO_ID'', PyStr ''0400000US17''),
            (''state'', PyStr ''17'')]],
          [[(''B01001_50E'', PyStr ''7''), (''GEO_ID'', PyStr ''0400000US06''),
            (''state'', PyStr ''06'')]]] :: int row list list"
  have q: "?q = (Inr ?rs, snd ?q)"
    using short_table_run by (metis prod.collapse)
  have "get example_float (scripted_server [first_table, short_table]) ?c
      (FList (example_fields 50)) ?geo None = (Inr (map merge (zip_star ?rs)), snd ?q)"
    using merge_shortest_chunk [where results = ?rs and c' = "snd ?q", THEN mp, OF q] by blast
  then have "fst (get example_float (scripted_server [first_table, short_table]) ?c
      (FList (example_fields 50)) ?geo None) = Inr (map merge (zip_star ?rs))"
    by simp
  then show ?thesis
    using short_table_run by (simp add: merge_def)
qed

text \<open>
  Claim C2 does not hold of the code. \<open>query\<close> tests \<open>'GEO_ID' in fields\<close> after it has
  appended \<open>GEO_ID\<close> to \<open>fields\<close>, so the test is always true when sorting applies, the
  branch that pops the key is never taken, and the sorted rows keep \<open>GEO_ID\<close>.
  Whenever a chunked, sorted \<open>get\<close> returns, every merged row has the key \<open>GEO_ID\<close>,
  whether or not the caller asked for it.
\<close>

theorem geoid_kept_in_merged_rows:
  fixes merged :: "('f::linorder) row list" and pf' :: "string \<Rightarrow> ('g::linorder) option"
  shows "(sort_by_geoid flds year \<and> get pf tr c flds geo year = (Inr merged, c') \<longrightarrow>
      (\<forall>row \<in> set merged. ''GEO_ID'' \<in> fst ` set row)) \<and>
    ''GEO_ID'' \<in> set (request_fields ch True) \<and>
    (status_code resp = 200 \<and> json resp = Some (Table headers data) \<and>
     field_types tr' c1 headers y = (Inr ts, c2) \<and> build_rows pf' headers ts data = Inr rows
     \<longrightarrow> handle_response pf' tr' c1 resp y (request_fields ch True) True =
            (sorted_by_geoid False rows, c2)) \<and>
    (sorted_by_geoid False rows = Inr rows' \<longrightarrow>
       mset rows' = mset rows \<and> (\<forall>r \<in> set rows'. ''GEO_ID'' \<in> fst ` set r))"
proof -
  have a: "sort_by_geoid flds year \<and> get pf tr c flds geo year = (Inr merged, c') \<longrightarrow>
      (\<forall>row \<in> set merged. ''GEO_ID'' \<in> fst ` set row)"
  proof (intro impI ballI, elim conjE)
    fix row
    assume sb: "sort_by_geoid flds year"
      and g: "get pf tr c flds geo year = (Inr merged, c')"
      and row: "row \<in> set merged"
    obtain results where q: "query_all pf tr c (chunks flds 49) geo year True = (Inr results, c')"
      and m: "merged = map merge (zip_star results)"
      using get_success [OF g] sb by auto
    let ?P = "\<lambda>rows :: 'f row list. \<forall>r \<in> set rows. ''GEO_ID'' \<in> fst ` set r"
    have all: "\<forall>r \<in> set results. ?P r"
      by (rule query_all_results [of pf tr geo year True ?P, OF _ q]) (use query_sorted in blast)
    have "49 < py_len flds" using sb by (simp add: sort_by_geoid_def)
    then have "0 < (py_len flds + 48) div 49" by (simp add: div_greater_zero_iff)
    then have "length (chunks flds 49) \<noteq> 0"
      by (simp add: chunks_length)
    then have ne: "results \<noteq> []"
      using query_all_success [OF q] by auto
    obtain i where i: "i < length (zip_star results)" and r: "row = merge (zip_star results ! i)"
      using row unfolding m by (auto simp: in_set_conv_nth)
    have z: "zip_star results ! i = map (\<lambda>r. r ! i) results"
      using zip_star_nth [OF i] .
    have "i < Min (set (map length results))"
      using i zip_star_length [OF ne] by simp
    then have il: "\<forall>r \<in> set results. i < length r"
      using ne by (simp add: Min_gr_iff)
    obtain r0 where r0: "r0 \<in> set results" using ne by (cases results) auto
    have "''GEO_ID'' \<in> fst ` set (r0 ! i)"
      using all r0 il by (metis nth_mem)
    then show "''GEO_ID'' \<in> fst ` set row"
      unfolding r z using r0 by (auto simp: merge_keys)
  qed
  have b: "''GEO_ID'' \<in> set (request_fields ch True)"
    by (simp add: request_fields_def)
  have d: "status_code resp = 200 \<and> json resp = Some (Table headers data) \<and>
     field_types tr' c1 headers y = (Inr ts, c2) \<and> build_rows pf' headers ts data = Inr rows
     \<longrightarrow> handle_response pf' tr' c1 resp y (request_fields ch True) True =
            (sorted_by_geoid False rows, c2)"
    using b by (auto simp: handle_response_def)
  have e: "sorted_by_geoid False rows = Inr rows' \<longrightarrow>
       mset rows' = mset rows \<and> (\<forall>r \<in> set rows'. ''GEO_ID'' \<in> fst ` set r)"
    using sorted_by_geoid_keep [of rows rows'] by blast
  show ?thesis
    by (intro conjI a b d e)
qed

theorem geoid_kept_in_merged_rows_witness:
  "''GEO_ID'' \<notin> set (example_fields 50) \<and>
   sort_by_geoid (FList (example_fields 50)) None \<and>
   list_all (\<lambda>row. ''GEO_ID'' \<in> fst ` set row)
     (projr (fst (get example_float (scripted_server [first_table, second_table])
        (acs5_client ''k'' None 3) (FList (example_fields 50)) [(''for'', ''state:*'')] None)))"
proof -
  let ?c = "acs5_client ''k'' None 3"
  let ?geo = "[(''for'', ''state:*'')]"
  let ?g = "get example_float (scripted_server [first_table, second_table]) ?c
      (FList (example_fields 50)) ?geo None"
  have sb: "sort_by_geoid (FList (example_fields 50)) None"
    by (simp add: sort_by_geoid_def example_fields_length)
  have run: "?g = (Inr (projr (fst ?g)), snd ?g)"
    using two_tables_run by (metis prod.collapse sum.sel(2))
  have "\<forall>row \<in> set (projr (fst ?g)). ''GEO_ID'' \<in> fst ` set row"
    using geoid_kept_in_merged_rows [where flds = "FList (example_fields 50)" and year = None
        and pf = example_float and tr = "scripted_server [first_table, second_table]"
        and c = ?c and geo = ?geo and merged = "projr (fst ?g)" and c' = "snd ?g",
        THEN conjunct1, THEN mp, OF conjI [OF sb run]] .
  then show ?thesis
    using sb geoid_not_example [of 50] by (simp add: list_all_iff)
qed

text \<open>
  Claim C3, as stated, fails when the caller asks for \<open>GEO_ID\<close> among more than 49
  fields: the condition of the claim is false, and \<open>get\<close> still passes
  \<open>sort_by_geoid=True\<close> to every query, which appends \<open>GEO_ID\<close> to the chunk (so the
  first chunk asks for it twice).
\<close>

theorem explicit_geoid_counterexample:
  "''GEO_ID'' \<in> set (list_or_str (FList (''GEO_ID'' # example_fields 49))) \<and>
   \<not> specified_sort_condition (FList (''GEO_ID'' # example_fields 49)) None \<and>
   query_log (snd (get example_float (constant_server no_content) (acs5_client ''k'' None 3)
       (FList (''GEO_ID'' # example_fields 49)) [(''for'', ''state:*'')] None)) =
     [(FList (take 49 (''GEO_ID'' # example_fields 49)), True),
      (FList (drop 49 (''GEO_ID'' # example_fields 49)), True)] \<and>
   request_fields (FList (take 49 (''GEO_ID'' # example_fields 49))) True =
     take 49 (''GEO_ID'' # example_fields 49) @ [''GEO_ID'']"
proof -
  have "query_log (snd (get example_float (constant_server no_content)
       (acs5_client ''k'' None 3) (FList (''GEO_ID'' # example_fields 49))
       [(''for'', ''state:*'')] None)) =
     query_log (acs5_client ''k'' None 3) @
     map (\<lambda>ch. (ch, sort_by_geoid (FList (''GEO_ID'' # example_fields 49)) None))
       (chunks (FList (''GEO_ID'' # example_fields 49)) 49)"
    by (rule get_no_content_log [where f = "''state:*''"]) (simp_all add: no_content_def)
  then show ?thesis
    by (simp add: chunks_fifty example_fields_length sort_by_geoid_def acs5_client_def
        specified_sort_condition_def request_fields_def)
qed

text \<open>
  Claim C3, amended. \<open>get\<close> sorts exactly when there are more than 49 fields and the
  year argument is unspecified, zero or greater than 2009, whether or not \<open>GEO_ID\<close> is
  among the requested fields. Every query of the call is made with that one flag. With
  the flag, the request asks for the fields of the chunk followed by \<open>GEO_ID\<close>, and
  the rows of the response are returned sorted by their \<open>GEO_ID\<close> values (the same rows,
  reordered); without it the request asks for the fields of the chunk only and the rows
  are returned in the order of the response.
\<close>

theorem sort_by_geoid_condition:
  fixes results :: "('f::linorder) row list list" and pf' :: "string \<Rightarrow> ('g::linorder) option"
  shows "(sort_by_geoid flds year \<longleftrightarrow>
      49 < py_len flds \<and> (year = None \<or> year = Some 0 \<or> (\<exists>y. year = Some y \<and> 2009 < y))) \<and>
   (\<forall>e \<in> set (drop (length (query_log c)) (query_log (snd (get pf tr c flds geo year)))).
      snd e = sort_by_geoid flds year) \<and>
   request_fields ch True = list_or_str ch @ [''GEO_ID''] \<and>
   request_fields ch False = list_or_str ch \<and>
   (build_params c0 (request_fields ch sbg) geo = Inr params \<longrightarrow>
      map_of params ''get'' = Some (join '','' (request_fields ch sbg)) \<and>
      query_body pf' tr' c0 ch geo year sbg =
        handle_response pf' tr'
          (c0\<lparr>session_log := session_log c0 @ [Get (query_url c0 year) (Some params)]\<rparr>)
          (tr' (session_log c0) (Get (query_url c0 year) (Some params)))
          (case year of None \<Rightarrow> default_year c0 | Some y \<Rightarrow> y)
          (request_fields ch sbg) sbg) \<and>
   (sort_by_geoid flds year \<and>
    query_all pf tr c (chunks flds 49) geo year (sort_by_geoid flds year) = (Inr results, c')
    \<longrightarrow> (\<forall>rows \<in> set results. geoid_sorted rows)) \<and>
   (status_code resp = 200 \<and> json resp = Some (Table headers data) \<and>
    field_types tr' c1 headers y = (Inr ts, c2) \<longrightarrow>
      handle_response pf' tr' c1 resp y fs False =
        (case build_rows pf' headers ts data of
           Inl e \<Rightarrow> (Inl e, c2)
         | Inr rows \<Rightarrow> (Inr rows, c2)) \<and>
      handle_response pf' tr' c1 resp y (request_fields ch True) True =
        (case build_rows pf' headers ts data of
           Inl e \<Rightarrow> (Inl e, c2)
         | Inr rows \<Rightarrow> (sorted_by_geoid False rows, c2))) \<and>
   (sorted_by_geoid False rs = Inr (sorted_rows :: 'g row list) \<longrightarrow>
      mset sorted_rows = mset rs \<and> geoid_sorted sorted_rows)"
proof -
  have a: "sort_by_geoid flds year \<longleftrightarrow>
      49 < py_len flds \<and> (year = None \<or> year = Some 0 \<or> (\<exists>y. year = Some y \<and> 2009 < y))"
    by (auto simp: sort_by_geoid_def split: option.splits)
  obtain k where "query_log (snd (get pf tr c flds geo year)) =
      query_log c @ map (\<lambda>ch. (ch, sort_by_geoid flds year)) (take k (chunks flds 49))"
    using query_all_log [of "chunks flds 49" pf tr c geo year "sort_by_geoid flds year"]
    unfolding get_query_log by blast
  then have b: "\<forall>e \<in> set (drop (length (query_log c))
      (query_log (snd (get pf tr c flds geo year)))). snd e = sort_by_geoid flds year"
    by auto
  have d: "\<forall>rows \<in> set results. geoid_sorted rows"
    if sb: "sort_by_geoid flds year"
      and q: "query_all pf tr c (chunks flds 49) geo year (sort_by_geoid flds year)
        = (Inr results, c')"
  proof -
    have q': "query_all pf tr c (chunks flds 49) geo year True = (Inr results, c')"
      using q sb by simp
    show ?thesis
      by (rule query_all_results [of pf tr geo year True geoid_sorted, OF _ q'])
        (use query_sorted in blast)
  qed
  have g: "''GEO_ID'' \<in> set (request_fields ch True)"
    by (simp add: request_fields_def)
  have e: "status_code resp = 200 \<and> json resp = Some (Table headers data) \<and>
    field_types tr' c1 headers y = (Inr ts, c2) \<longrightarrow>
      handle_response pf' tr' c1 resp y fs False =
        (case build_rows pf' headers ts data of
           Inl e \<Rightarrow> (Inl e, c2)
         | Inr rows \<Rightarrow> (Inr rows, c2)) \<and>
      handle_response pf' tr' c1 resp y (request_fields ch True) True =
        (case build_rows pf' headers ts data of
           Inl e \<Rightarrow> (Inl e, c2)
         | Inr rows \<Rightarrow> (sorted_by_geoid False rows, c2))"
    using g by (auto simp: handle_response_def split: sum.splits)
  have c1: "request_fields ch True = list_or_str ch @ [''GEO_ID'']"
    and c2: "request_fields ch False = list_or_str ch"
    by (simp_all add: request_fields_def)
  have p: "build_params c0 (request_fields ch sbg) geo = Inr params \<longrightarrow>
      map_of params ''get'' = Some (join '','' (request_fields ch sbg)) \<and>
      query_body pf' tr' c0 ch geo year sbg =
        handle_response pf' tr'
          (c0\<lparr>session_log := session_log c0 @ [Get (query_url c0 year) (Some params)]\<rparr>)
          (tr' (session_log c0) (Get (query_url c0 year) (Some params)))
          (case year of None \<Rightarrow> default_year c0 | Some y \<Rightarrow> y)
          (request_fields ch sbg) sbg"
    using query_body_sent [of c0 ch sbg geo params pf' tr' year]
    by (auto simp: build_params_def split: option.splits)
  have d': "sort_by_geoid flds year \<and>
    query_all pf tr c (chunks flds 49) geo year (sort_by_geoid flds year) = (Inr results, c')
    \<longrightarrow> (\<forall>rows \<in> set results. geoid_sorted rows)"
    using d by blast
  have s: "sorted_by_geoid False rs = Inr sorted_rows \<longrightarrow>
      mset sorted_rows = mset rs \<and> geoid_sorted sorted_rows"
    using sorted_by_geoid_keep [of rs sorted_rows] by blast
  show ?thesis
    by (intro conjI a b c1 c2 p d' e s)
qed

theorem sort_by_geoid_condition_witness:
  "sort_by_geoid (FList (''GEO_ID'' # example_fields 49)) None \<and>
   \<not> sort_by_geoid (FList (example_fields 50)) (Some 2009) \<and>
   \<not> sort_by_geoid (FList (example_fields 49)) None \<and>
   list_all geoid_sorted
     (projr (fst (query_all example_float (scripted_server [first_table, short_table])
        (acs5_client ''k'' None 3) (chunks (FList (example_fields 50)) 49)
        [(''for'', ''state:*'')] None (sort_by_geoid (FList (example_fields 50)) None)))) \<and>
   handle_response example_float echo_server
       (acs5_client ''k'' None 3\<lparr>field_type_cache := [((''NAME'', 2023), Cast_str)]\<rparr>)
       \<lparr>status_code = 200, resp_text = [],
         json = Some (Table [''NAME''] [[Some ''Illinois''], [Some ''California'']])\<rparr>
       2023 [''NAME''] False =
     (Inr [[(''NAME'', PyStr ''Illinois'')], [(''NAME'', PyStr ''California'')]],
      acs5_client ''k'' None 3\<lparr>field_type_cache := [((''NAME'', 2023), Cast_str)]\<rparr>)"
proof -
  let ?c = "acs5_client ''k'' None 3"
  let ?geo = "[(''for'', ''state:*'')]"
  let ?q = "query_all example_float (scripted_server [first_table, short_table]) ?c
      (chunks (FList (example_fields 50)) 49) ?geo None
      (sort_by_geoid (FList (example_fields 50)) None)"
  let ?c1 = "?c\<lparr>field_type_cache := [((''NAME'', 2023), Cast_str)]\<rparr>"
  let ?resp = "\<lparr>status_code = 200, resp_text = [],
         json = Some (Table [''NAME''] [[Some ''Illinois''], [Some ''California'']])\<rparr>"
  have a: "sort_by_geoid (FList (''GEO_ID'' # example_fields 49)) None"
    using sort_by_geoid_condition [where flds = "FList (''GEO_ID'' # example_fields 49)"
        and year = None, THEN conjunct1]
    by (simp add: example_fields_length)
  have b: "\<not> sort_by_geoid (FList (example_fields 50)) (Some 2009)"
    using sort_by_geoid_condition [where flds = "FList (example_fields 50)"
        and year = "Some 2009", THEN conjunct1]
    by simp
  have b': "\<not> sort_by_geoid (FList (example_fields 49)) None"
    using sort_by_geoid_condition [where flds = "FList (example_fields 49)"
        and year = None, THEN conjunct1]
    by (simp add: example_fields_length)
  have sb: "sort_by_geoid (FList (example_fields 50)) None"
    by (simp add: sort_by_geoid_def example_fields_length)
  have q: "?q = (Inr (projr (fst ?q)), snd ?q)"
    using short_table_run by (metis prod.collapse sum.sel(2))
  have "\<forall>rows \<in> set (projr (fst ?q)). geoid_sorted rows"
    using sort_by_geoid_condition [where flds = "FList (example_fields 50)" and year = None
        and pf = example_float and tr = "scripted_server [first_table, short_table]"
        and c = ?c and geo = ?geo and results = "projr (fst ?q)" and c' = "snd ?q",
        THEN conjunct2, THEN conjunct2, THEN conjunct2, THEN conjunct2, THEN conjunct2,
        THEN conjunct1, THEN mp, OF conjI [OF sb q]] .
  then have d: "list_all geoid_sorted (projr (fst ?q))"
    by (simp add: list_all_iff)
  have ft: "field_types echo_server ?c1 [''NAME''] 2023 = (Inr [Cast_str], ?c1)"
    by (simp add: field_type_def lru_get_def acs5_client_def)
  have e: "handle_response example_float echo_server ?c1 ?resp 2023 [''NAME''] False =
     (Inr [[(''NAME'', PyStr ''Illinois'')], [(''NAME'', PyStr ''California'')]], ?c1)"
    using sort_by_geoid_condition [where resp = ?resp and headers = "[''NAME'']"
        and data = "[[Some ''Illinois''], [Some ''California'']]" and tr' = echo_server
        and ?c1.0 = ?c1 and y = 2023 and ts = "[Cast_str]" and ?c2.0 = ?c1
        and pf' = example_float and fs = "[''NAME'']",
        THEN conjunct2, THEN conjunct2, THEN conjunct2, THEN conjunct2, THEN conjunct2,
        THEN conjunct2, THEN conjunct1]
      ft
    by (simp add: cast_item_def)
  show ?thesis
    using a b b' d e by simp
qed

end
